theory Spec2Isabelle
  imports Complex_Main "HOL-Library.Word" "HOL-Library.Sublist"
begin

section \<open>Floating-point values and the arithmetic of the measurement loop\<close>

text \<open>
  \<open>reduce_bench.cu\<close> computes with \<open>float\<close> (the dataset) and \<open>double\<close> (the sums and
  the error). A value of either type is a real number or one of the three special values
  of IEEE 754. Operations whose result IEEE 754 fixes exactly are written out; the
  operations that round (subtraction, division, multiplication in general) are a
  parameter of the model, so every theorem below holds for whatever the hardware's
  rounding does.
\<close>

datatype ieee = Finite real | PlusInf | MinusInf | NaN

type_synonym float = ieee
type_synonym double = ieee

record fp_arith =
  sub_rounded :: "double \<Rightarrow> double \<Rightarrow> double"
  div_rounded :: "double \<Rightarrow> double \<Rightarrow> double"
  mul_rounded :: "double \<Rightarrow> double \<Rightarrow> double"

definition fp_sub :: "fp_arith \<Rightarrow> double \<Rightarrow> double \<Rightarrow> double" where
  "fp_sub A x y = sub_rounded A x y"

definition fp_div :: "fp_arith \<Rightarrow> double \<Rightarrow> double \<Rightarrow> double" where
  "fp_div A x y = div_rounded A x y"

text \<open>Multiplication by the literal \<open>1.0\<close> is exact in IEEE 754, for every operand.\<close>

definition fp_mul :: "fp_arith \<Rightarrow> double \<Rightarrow> double \<Rightarrow> double" where
  "fp_mul A x y =
     (if y = Finite 1 then x else if x = Finite 1 then y else mul_rounded A x y)"

text \<open>\<open>std::abs\<close> on a \<open>double\<close> clears the sign and never rounds.\<close>

fun fp_abs :: "double \<Rightarrow> double" where
  "fp_abs (Finite x) = Finite \<bar>x\<bar>"
| "fp_abs PlusInf = PlusInf"
| "fp_abs MinusInf = PlusInf"
| "fp_abs NaN = NaN"

subsection \<open>Converting a \<open>size_t\<close> to \<open>double\<close>\<close>

text \<open>
  A \<open>double\<close> has a 53-bit significand. An unsigned 64-bit integer with more significant
  bits is rounded to the nearest representable value, ties to the even significand.
\<close>

fun bit_length :: "nat \<Rightarrow> nat" where
  "bit_length n = (if n = 0 then 0 else Suc (bit_length (n div 2)))"

declare bit_length.simps [simp del]

definition round_nearest_even :: "nat \<Rightarrow> nat \<Rightarrow> nat" where
  "round_nearest_even e n =
     (let q = n div 2 ^ e; r = n mod 2 ^ e
      in if 2 * r < 2 ^ e \<or> (2 * r = 2 ^ e \<and> even q) then q * 2 ^ e else (q + 1) * 2 ^ e)"

definition double_of_size :: "nat \<Rightarrow> double" where
  "double_of_size n = Finite (real (round_nearest_even (bit_length n - 53) n))"

section \<open>The benchmark framework's state\<close>

text \<open>
  \<open>bm::State\<close> as \<open>generic\<close> uses it: the index of the measuring thread, the number of
  iterations the range-for over the state runs (which \<open>state.iterations()\<close> returns once
  the loop is over), and the user counters, a \<open>std::map\<close> from names to \<open>bm::Counter\<close>.
\<close>

datatype counter_flags = kDefaults | kIsRate

datatype counter = Counter double counter_flags

record bm_state =
  thread_index :: int
  max_iterations :: nat
  counters :: "string \<rightharpoonup> counter"

definition iterations :: "bm_state \<Rightarrow> 64 word" where
  "iterations st = word_of_nat (max_iterations st)"

section \<open>The measurement loop\<close>

text \<open>
  An accumulator is a callable object: invoking it returns a sum and leaves the object in
  a possibly different internal state. The loop of \<open>generic\<close> keeps the last sum and the
  last error.
\<close>

type_synonym 's accumulator = "('s \<Rightarrow> double \<times> 's) \<times> 's"

definition sum_expected :: "fp_arith \<Rightarrow> float list \<Rightarrow> double" where
  "sum_expected A dataset = fp_mul A (double_of_size (length dataset)) (Finite 1)"

fun timed_loop ::
  "fp_arith \<Rightarrow> double \<Rightarrow> ('s \<Rightarrow> double \<times> 's) \<Rightarrow> nat \<Rightarrow> double \<times> double \<times> 's
     \<Rightarrow> double \<times> double \<times> 's" where
  "timed_loop A e invoke 0 v = v"
| "timed_loop A e invoke (Suc k) (sum_v, error, s) =
     (let (sum_v', s') = invoke s;
          error' = fp_div A (fp_abs (fp_sub A e sum_v')) e
      in timed_loop A e invoke k (sum_v', error', s'))"

definition size_of_float :: "64 word" where
  "size_of_float = 4"

definition generic ::
  "fp_arith \<Rightarrow> float list \<Rightarrow> bm_state \<Rightarrow> 's accumulator \<Rightarrow> bm_state \<times> 's accumulator" where
  "generic A dataset st acc =
     (let e = sum_expected A dataset;
          (sum_v, error, s') = timed_loop A e (fst acc) (max_iterations st) (Finite 0, Finite 0, snd acc);
          st' =
            (if thread_index st = 0 then
               let total_ops = iterations st * word_of_nat (length dataset)
               in st\<lparr>counters :=
                     ((counters st)
                        (''adds/s'' \<mapsto> Counter (double_of_size (unat total_ops)) kIsRate,
                         ''bytes/s'' \<mapsto> Counter (double_of_size (unat (total_ops * size_of_float))) kIsRate,
                         ''error,%'' \<mapsto> Counter (fp_mul A error (Finite 100)) kDefaults))\<rparr>
             else st)
      in (st', (fst acc, s')))"

text \<open>The sums the accumulator returns, in the order of its invocations.\<close>

fun invocations :: "('s \<Rightarrow> double \<times> 's) \<Rightarrow> 's \<Rightarrow> nat \<Rightarrow> double list" where
  "invocations invoke s 0 = []"
| "invocations invoke s (Suc k) = fst (invoke s) # invocations invoke (snd (invoke s)) k"

section \<open>Process entry: the element count and the dataset\<close>

text \<open>
  \<open>std::atol\<close> as the C library defines it: leading white space is skipped, an optional
  sign is read, then the longest run of decimal digits; text with no digits gives 0. A
  value outside the range of \<open>long\<close> is clamped to it, as glibc's \<open>strtol\<close> does.
\<close>

definition is_space :: "char \<Rightarrow> bool" where
  "is_space c = (c \<in> set [CHR '' '', CHR 0x09, CHR 0x0A, CHR 0x0B, CHR 0x0C, CHR 0x0D])"

definition is_digit :: "char \<Rightarrow> bool" where
  "is_digit c = (c \<in> set ''0123456789'')"

definition digit_value :: "char \<Rightarrow> nat" where
  "digit_value c = of_char c - 48"

definition digits_value :: "string \<Rightarrow> nat" where
  "digits_value ds = foldl (\<lambda>a c. 10 * a + digit_value c) 0 ds"

definition clamp_long :: "int \<Rightarrow> int" where
  "clamp_long v = max (- (2 ^ 63)) (min (2 ^ 63 - 1) v)"

definition atol :: "string \<Rightarrow> int" where
  "atol s =
     (let t = dropWhile is_space s;
          (negative, u) =
            (case t of
               [] \<Rightarrow> (False, [])
             | c # r \<Rightarrow>
                 if c = CHR ''-'' then (True, r)
                 else if c = CHR ''+'' then (False, r)
                 else (False, t));
          v = int (digits_value (takeWhile is_digit u))
      in clamp_long (if negative then - v else v))"

text \<open>
  Lines 40 to 46 of \<open>main\<close>: the text printed and the requested element count, a
  \<open>size_t\<close>. \<open>argc\<close> is the length of \<open>argv\<close>.
\<close>

definition default_notice :: string where
  "default_notice = ''You did not feed the size of arrays, so we will use a 1GB array!\<newline>''"

definition parse_elements :: "string list \<Rightarrow> string list \<times> 64 word" where
  "parse_elements argv =
     (if length argv \<le> 1 then ([default_notice], 1024 * 1024 * 1024 div size_of_float)
      else ([], word_of_int (atol (argv ! 1))))"

definition elements :: "string list \<Rightarrow> 64 word" where
  "elements argv = snd (parse_elements argv)"

text \<open>
  Lines 47 and 48: \<open>dataset.resize(elements)\<close> and the fill with \<open>1.f\<close>. \<open>resize\<close> throws
  (\<open>std::length_error\<close> or \<open>std::bad_alloc\<close>) when the vector cannot grow to the requested
  size; nothing catches it, so the process ends there. The number of floats the
  allocator can provide is a parameter.
\<close>

datatype failure = Allocation_failed

definition build_dataset :: "nat \<Rightarrow> 64 word \<Rightarrow> failure + float list" where
  "build_dataset max_alloc n =
     (if unat n \<le> max_alloc then Inr (replicate (unat n) (Finite 1)) else Inl Allocation_failed)"

section \<open>Backends and the registered cases\<close>

text \<open>
  What \<open>reduce_cuda.hpp\<close> and \<open>reduce_opencl.hpp\<close> give to \<open>main\<close>: the targets that
  \<open>opencl_targets()\<close> returns, the result of \<open>cuda_device_count()\<close>, the kernel names
  \<open>opencl_t::kernels_k\<close> and the work-group sizes \<open>opencl_wg_sizes\<close> (unsigned integers,
  which \<open>fmt::format\<close> prints in decimal). The headers are not part of the sources at
  hand, so these are parameters of \<open>main\<close>.
\<close>

record target =
  device_name :: string
  device_version :: string
  driver_version :: string
  language_version :: string

record env =
  max_alloc :: nat
  opencl_targets :: "target list"
  cuda_device_count :: int
  kernels_k :: "string list"
  opencl_wg_sizes :: "nat list"

text \<open>
  The function a case runs: \<open>automatic\<close> instantiated at an accumulator type, or the
  lambda of the OpenCL loop, which holds its own copies of \<open>tgt\<close>, \<open>group_size\<close> and
  \<open>kernel_name\<close> (capture by \<open>[=]\<close>).
\<close>

datatype accumulator_type =
    cpu_baseline_gt_float | cpu_baseline_gt_double | cpu_openmp_t
  | cpu_par_gt_float | cpu_par_gt_double
  | cpu_par_unseq_gt_float | cpu_par_unseq_gt_double
  | cpu_avx2_f32_t | cpu_avx2_kahan_t | cpu_avx2_f64_t | cpu_avx2_f64_by32_t
  | cuda_cub_t | cuda_warps_t | cuda_thrust_t

datatype benchmark_fn =
    automatic_fn accumulator_type
  | opencl_lambda target nat string

record benchmark =
  bench_name :: string
  bench_fn :: benchmark_fn
  bench_min_time :: nat
  bench_use_real_time :: bool

text \<open>
  \<open>bm::RegisterBenchmark(name, fn)->MinTime(10)->UseRealTime()\<close>: the framework copies
  the name and the callable into a new entry at the end of its list of cases.
\<close>

definition RegisterBenchmark :: "string \<Rightarrow> benchmark_fn \<Rightarrow> benchmark list \<Rightarrow> benchmark list" where
  "RegisterBenchmark nm f registry =
     registry @ [\<lparr>bench_name = nm, bench_fn = f, bench_min_time = 10, bench_use_real_time = True\<rparr>]"

definition is_cuda :: "benchmark_fn \<Rightarrow> bool" where
  "is_cuda f = (f \<in> set [automatic_fn cuda_cub_t, automatic_fn cuda_warps_t, automatic_fn cuda_thrust_t])"

fun is_opencl :: "benchmark_fn \<Rightarrow> bool" where
  "is_opencl (opencl_lambda t g k) = True"
| "is_opencl (automatic_fn a) = False"

subsection \<open>Text formatting\<close>

fun decimal :: "nat \<Rightarrow> string" where
  "decimal n =
     (if n < 10 then [''0123456789'' ! n]
      else decimal (n div 10) @ [''0123456789'' ! (n mod 10)])"

declare decimal.simps [simp del]

definition target_line :: "target \<Rightarrow> string" where
  "target_line tgt =
     ''- OpenCL: '' @ device_name tgt @ '' ('' @ device_version tgt @ ''), '' @
     driver_version tgt @ '', '' @ language_version tgt @ ''\<newline>''"

definition opencl_case_name :: "string \<Rightarrow> nat \<Rightarrow> string \<Rightarrow> string" where
  "opencl_case_name kernel_name group_size dev =
     ''opencl-'' @ kernel_name @ '' split by '' @ decimal group_size @ '' on '' @ dev"

definition no_cuda_notice :: string where
  "no_cuda_notice = ''No CUDA capable devices found!\<newline>''"

subsection \<open>Registration\<close>

text \<open>A run of \<open>RegisterBenchmark\<close> calls, in the order of the source.\<close>

definition register_each :: "(string \<times> benchmark_fn) list \<Rightarrow> benchmark list \<Rightarrow> benchmark list" where
  "register_each calls registry = foldl (\<lambda>reg (nm, f). RegisterBenchmark nm f reg) registry calls"

text \<open>Lines 57 to 69: the CPU cases.\<close>

definition register_cpu :: "benchmark list \<Rightarrow> benchmark list" where
  "register_cpu =
     register_each
       [(''cpu_baseline:f32'', automatic_fn cpu_baseline_gt_float),
        (''cpu_baseline:f64'', automatic_fn cpu_baseline_gt_double),
        (''cpu_openmp'', automatic_fn cpu_openmp_t),
        (''cpu_par:f32'', automatic_fn cpu_par_gt_float),
        (''cpu_par:f64'', automatic_fn cpu_par_gt_double),
        (''cpu_par_unseq:f32'', automatic_fn cpu_par_unseq_gt_float),
        (''cpu_par_unseq:f64'', automatic_fn cpu_par_unseq_gt_double),
        (''cpu_avx2:f32'', automatic_fn cpu_avx2_f32_t),
        (''cpu_avx2:f32kahan'', automatic_fn cpu_avx2_kahan_t),
        (''cpu_avx2:f64'', automatic_fn cpu_avx2_f64_t),
        (''cpu_avx2:f64:by32'', automatic_fn cpu_avx2_f64_by32_t)]"

text \<open>Lines 72 to 77: the CUDA cases, or the notice. Returns the text printed too.\<close>

definition register_cuda :: "int \<Rightarrow> benchmark list \<Rightarrow> string list \<times> benchmark list" where
  "register_cuda device_count registry =
     (if device_count \<noteq> 0 then
        ([],
         register_each
           [(''cuda_cub'', automatic_fn cuda_cub_t),
            (''cuda_warps'', automatic_fn cuda_warps_t),
            (''cuda_thrust'', automatic_fn cuda_thrust_t)] registry)
      else ([no_cuda_notice], registry))"

text \<open>Lines 80 to 94: the three nested loops, innermost first.\<close>

definition register_group_sizes ::
  "target \<Rightarrow> string \<Rightarrow> nat list \<Rightarrow> benchmark list \<Rightarrow> benchmark list" where
  "register_group_sizes tgt kernel_name sizes registry =
     foldl (\<lambda>reg group_size.
        let nm = opencl_case_name kernel_name group_size (device_name tgt)
        in RegisterBenchmark nm (opencl_lambda tgt group_size kernel_name) reg) registry sizes"

definition register_kernels ::
  "target \<Rightarrow> string list \<Rightarrow> nat list \<Rightarrow> benchmark list \<Rightarrow> benchmark list" where
  "register_kernels tgt kernels sizes registry =
     foldl (\<lambda>reg kernel_name. register_group_sizes tgt kernel_name sizes reg) registry kernels"

definition register_opencl ::
  "target list \<Rightarrow> string list \<Rightarrow> nat list \<Rightarrow> benchmark list \<Rightarrow> benchmark list" where
  "register_opencl targets kernels sizes registry =
     foldl (\<lambda>reg tgt. register_kernels tgt kernels sizes reg) registry targets"

subsection \<open>\<open>main\<close> up to the hand-over to the framework\<close>

record run =
  printed :: "string list"
  built :: "float list"
  registered :: "benchmark list"

text \<open>
  When \<open>resize\<close> throws, the process ends with what lines 40 to 46 printed; otherwise
  \<open>main\<close> reaches \<open>bm::Initialize\<close> with the text printed so far, the dataset and the
  list of registered cases.
\<close>

definition main :: "env \<Rightarrow> string list \<Rightarrow> (string list \<times> failure) + run" where
  "main E argv =
     (let (out1, n) = parse_elements argv
      in case build_dataset (max_alloc E) n of
           Inl f \<Rightarrow> Inl (out1, f)
         | Inr ds \<Rightarrow>
             let ocl_targets = opencl_targets E;
                 out2 = map target_line ocl_targets;
                 reg1 = register_cpu [];
                 (out3, reg2) = register_cuda (cuda_device_count E) reg1;
                 reg3 = register_opencl ocl_targets (kernels_k E) (opencl_wg_sizes E) reg2
             in Inr \<lparr>printed = out1 @ out2 @ out3, built = ds, registered = reg3\<rparr>)"

text \<open>
  The entry that one pass of the innermost loop body adds, and the cases that the OpenCL
  loops add to an empty list.
\<close>

definition opencl_case :: "target \<Rightarrow> string \<Rightarrow> nat \<Rightarrow> benchmark" where
  "opencl_case tgt kernel_name group_size =
     \<lparr>bench_name = opencl_case_name kernel_name group_size (device_name tgt),
      bench_fn = opencl_lambda tgt group_size kernel_name,
      bench_min_time = 10, bench_use_real_time = True\<rparr>"

text \<open>The cases that lines 72 to 75 add to an empty list.\<close>

definition cuda_cases :: "int \<Rightarrow> benchmark list" where
  "cuda_cases device_count = snd (register_cuda device_count [])"

definition opencl_cases :: "env \<Rightarrow> benchmark list" where
  "opencl_cases E = register_opencl (opencl_targets E) (kernels_k E) (opencl_wg_sizes E) []"

section \<open>Running a case\<close>

text \<open>
  The accumulators themselves live in \<open>reduce_cpu.hpp\<close>, \<open>reduce_cuda.hpp\<close> and
  \<open>reduce_opencl.hpp\<close>. A backend gives, for the function of a case, the accumulator built
  over the dataset, and what one invocation does.
\<close>

record 's backend =
  construct :: "benchmark_fn \<Rightarrow> float list \<Rightarrow> 's"
  invoke_acc :: "'s \<Rightarrow> double \<times> 's"

text \<open>
  \<open>automatic\<close> builds the accumulator over the whole dataset and hands it to \<open>generic\<close>;
  the OpenCL lambda does the same with its captured target, group size and kernel name.
\<close>

definition automatic ::
  "fp_arith \<Rightarrow> 's backend \<Rightarrow> float list \<Rightarrow> accumulator_type \<Rightarrow> bm_state \<Rightarrow> bm_state \<times> 's accumulator" where
  "automatic A B ds a st =
     (let acc = (invoke_acc B, construct B (automatic_fn a) ds) in generic A ds st acc)"

fun run_benchmark ::
  "fp_arith \<Rightarrow> 's backend \<Rightarrow> float list \<Rightarrow> benchmark_fn \<Rightarrow> bm_state \<Rightarrow> bm_state \<times> 's accumulator" where
  "run_benchmark A B ds (automatic_fn a) st = automatic A B ds a st"
| "run_benchmark A B ds (opencl_lambda tgt group_size kernel_name) st =
     (let ocl = (invoke_acc B, construct B (opencl_lambda tgt group_size kernel_name) ds)
      in generic A ds st ocl)"

section \<open>The OpenCL loops with their local variables\<close>

text \<open>
  Lines 80 to 94 once more, now with the storage the loops write. The loop variables
  \<open>tgt\<close>, \<open>kernel_name\<close> and \<open>group_size\<close> and the string \<open>name\<close> are locals of \<open>main\<close>;
  every pass of a loop assigns its variable anew, so what the locals hold changes while
  cases are being registered, and when a case runs they hold what the last pass left.
\<close>

record locals =
  tgt_var :: target
  kernel_name_var :: string
  group_size_var :: nat
  name_var :: string

text \<open>
  A lambda holds, for each variable it uses, either a copy made when the lambda was
  created (capture by \<open>[=]\<close>) or a reference to the variable (capture by \<open>[&]\<close>). Reading
  a copy gives the value copied; reading a reference gives what the variable holds at
  the time of the read.
\<close>

datatype 'a capture = Copied 'a | Referenced

fun read_capture :: "'a capture \<Rightarrow> 'a \<Rightarrow> 'a" where
  "read_capture (Copied v) current = v"
| "read_capture Referenced current = current"

record closure =
  cap_tgt :: "target capture"
  cap_group_size :: "nat capture"
  cap_kernel_name :: "string capture"

definition capture_by_copy :: "locals \<Rightarrow> closure" where
  "capture_by_copy L =
     \<lparr>cap_tgt = Copied (tgt_var L), cap_group_size = Copied (group_size_var L),
      cap_kernel_name = Copied (kernel_name_var L)\<rparr>"

definition capture_by_reference :: closure where
  "capture_by_reference =
     \<lparr>cap_tgt = Referenced, cap_group_size = Referenced, cap_kernel_name = Referenced\<rparr>"

text \<open>
  \<open>RegisterBenchmark\<close> is handed \<open>name.c_str()\<close>, a pointer into \<open>name\<close>. The framework's
  header is not among the sources: a framework either copies the text it is pointed to
  into a string of its own, as the benchmark library does, or keeps the pointer. Which one
  is a parameter.
\<close>

datatype name_policy = Copies_text | Keeps_pointer

datatype stored_name = Own_text string | Pointer_to_name

record entry =
  entry_name :: stored_name
  entry_fn :: closure

definition register_lambda :: "name_policy \<Rightarrow> locals \<Rightarrow> closure \<Rightarrow> entry list \<Rightarrow> entry list" where
  "register_lambda P L c reg =
     reg @ [\<lparr>entry_name = (case P of Copies_text \<Rightarrow> Own_text (name_var L)
                                    | Keeps_pointer \<Rightarrow> Pointer_to_name),
             entry_fn = c\<rparr>]"

text \<open>
  Lines 83 to 91, the body of the innermost loop: \<open>name\<close> is formatted from the three loop
  variables, the lambda is created with \<open>[=]\<close>, and both are registered.
\<close>

definition loop_body :: "name_policy \<Rightarrow> locals \<times> entry list \<Rightarrow> locals \<times> entry list" where
  "loop_body P s =
     (let L = (fst s)\<lparr>name_var :=
            opencl_case_name (kernel_name_var (fst s)) (group_size_var (fst s))
              (device_name (tgt_var (fst s)))\<rparr>
      in (L, register_lambda P L (capture_by_copy L) (snd s)))"

definition loop_group_sizes ::
  "name_policy \<Rightarrow> nat list \<Rightarrow> locals \<times> entry list \<Rightarrow> locals \<times> entry list" where
  "loop_group_sizes P sizes s =
     foldl (\<lambda>s g. loop_body P ((fst s)\<lparr>group_size_var := g\<rparr>, snd s)) s sizes"

definition loop_kernels ::
  "name_policy \<Rightarrow> string list \<Rightarrow> nat list \<Rightarrow> locals \<times> entry list \<Rightarrow> locals \<times> entry list" where
  "loop_kernels P kernels sizes s =
     foldl (\<lambda>s k. loop_group_sizes P sizes ((fst s)\<lparr>kernel_name_var := k\<rparr>, snd s)) s kernels"

definition opencl_loops ::
  "name_policy \<Rightarrow> target list \<Rightarrow> string list \<Rightarrow> nat list \<Rightarrow> locals \<times> entry list
     \<Rightarrow> locals \<times> entry list" where
  "opencl_loops P targets kernels sizes s =
     foldl (\<lambda>s t. loop_kernels P kernels sizes ((fst s)\<lparr>tgt_var := t\<rparr>, snd s)) s targets"

text \<open>
  What an entry is when the framework comes to run it, given what the locals hold then:
  its name, and the constructor arguments of \<open>opencl_t\<close> that the lambda reads.
\<close>

definition entry_benchmark :: "locals \<Rightarrow> entry \<Rightarrow> benchmark" where
  "entry_benchmark L e =
     \<lparr>bench_name = (case entry_name e of Own_text s \<Rightarrow> s | Pointer_to_name \<Rightarrow> name_var L),
      bench_fn =
        opencl_lambda (read_capture (cap_tgt (entry_fn e)) (tgt_var L))
          (read_capture (cap_group_size (entry_fn e)) (group_size_var L))
          (read_capture (cap_kernel_name (entry_fn e)) (kernel_name_var L)),
      bench_min_time = 10, bench_use_real_time = True\<rparr>"

text \<open>Locals before the loops have assigned them.\<close>

definition unassigned :: locals where
  "unassigned =
     \<lparr>tgt_var = \<lparr>device_name = [], device_version = [], driver_version = [],
                  language_version = []\<rparr>,
      kernel_name_var = [], group_size_var = 0, name_var = []\<rparr>"

section \<open>An arithmetic without rounding error\<close>

text \<open>
  To run the model on concrete inputs: the arithmetic that returns the exact result, with
  the special values treated as IEEE 754 treats them.
\<close>

fun exact_sub :: "double \<Rightarrow> double \<Rightarrow> double" where
  "exact_sub (Finite x) (Finite y) = Finite (x - y)"
| "exact_sub (Finite x) PlusInf = MinusInf"
| "exact_sub (Finite x) MinusInf = PlusInf"
| "exact_sub PlusInf (Finite y) = PlusInf"
| "exact_sub PlusInf MinusInf = PlusInf"
| "exact_sub MinusInf (Finite y) = MinusInf"
| "exact_sub MinusInf PlusInf = MinusInf"
| "exact_sub x y = NaN"

fun exact_div :: "double \<Rightarrow> double \<Rightarrow> double" where
  "exact_div (Finite x) (Finite y) =
     (if y \<noteq> 0 then Finite (x / y)
      else if x = 0 then NaN else if 0 < x then PlusInf else MinusInf)"
| "exact_div (Finite x) PlusInf = Finite 0"
| "exact_div (Finite x) MinusInf = Finite 0"
| "exact_div PlusInf (Finite y) = (if 0 \<le> y then PlusInf else MinusInf)"
| "exact_div MinusInf (Finite y) = (if 0 \<le> y then MinusInf else PlusInf)"
| "exact_div x y = NaN"

fun exact_mul :: "double \<Rightarrow> double \<Rightarrow> double" where
  "exact_mul (Finite x) (Finite y) = Finite (x * y)"
| "exact_mul (Finite x) PlusInf = (if x = 0 then NaN else if 0 < x then PlusInf else MinusInf)"
| "exact_mul (Finite x) MinusInf = (if x = 0 then NaN else if 0 < x then MinusInf else PlusInf)"
| "exact_mul PlusInf (Finite y) = (if y = 0 then NaN else if 0 < y then PlusInf else MinusInf)"
| "exact_mul MinusInf (Finite y) = (if y = 0 then NaN else if 0 < y then MinusInf else PlusInf)"
| "exact_mul PlusInf PlusInf = PlusInf"
| "exact_mul PlusInf MinusInf = MinusInf"
| "exact_mul MinusInf PlusInf = MinusInf"
| "exact_mul MinusInf MinusInf = PlusInf"
| "exact_mul x y = NaN"

definition exact_arith :: fp_arith where
  "exact_arith = \<lparr>sub_rounded = exact_sub, div_rounded = exact_div, mul_rounded = exact_mul\<rparr>"

section \<open>Example environments\<close>

text \<open>
  Concrete inputs on which the properties below are run: a target with a given device
  name and driver version, and an environment with given targets and a given CUDA
  device count, three kernel names, two work-group sizes and room for one gigabyte of
  floats.
\<close>

definition gpu :: "string \<Rightarrow> string \<Rightarrow> target" where
  "gpu nm driver =
     \<lparr>device_name = nm, device_version = ''OpenCL 3.0'', driver_version = driver,
      language_version = ''OpenCL C 1.2''\<rparr>"

definition example_env :: "target list \<Rightarrow> int \<Rightarrow> env" where
  "example_env ts c =
     \<lparr>max_alloc = 268435456, opencl_targets = ts, cuda_device_count = c,
      kernels_k = [''reduce_simple'', ''reduce_w_modulo'', ''reduce_in_shared''],
      opencl_wg_sizes = [8, 128]\<rparr>"

section \<open>Properties\<close>

subsection \<open>Conversion and the loop\<close>

lemma bit_length_le: "n < 2 ^ k \<Longrightarrow> bit_length n \<le> k"
proof (induction k arbitrary: n)
  case 0
  then show ?case by (simp add: bit_length.simps)
next
  case (Suc k)
  show ?case
  proof (cases "n = 0")
    case True
    then show ?thesis by (simp add: bit_length.simps)
  next
    case False
    from Suc.prems have "n div 2 < 2 ^ k" by simp
    then have "bit_length (n div 2) \<le> k" by (rule Suc.IH)
    with False show ?thesis by (subst bit_length.simps) simp
  qed
qed

lemma round_nearest_even_0: "round_nearest_even 0 n = n"
  by (simp add: round_nearest_even_def)

lemma double_of_size_exact:
  assumes "n \<le> 2 ^ 53"
  shows "double_of_size n = Finite (real n)"
proof (cases "n = 2 ^ 53")
  case True
  have "bit_length ((2::nat) ^ 53) = 54"
    by (simp add: bit_length.simps)
  then show ?thesis
    using True by (simp add: double_of_size_def round_nearest_even_def)
next
  case False
  with assms have "n < 2 ^ 53" by simp
  then have "bit_length n - 53 = 0"
    using bit_length_le [of n 53] by simp
  then show ?thesis
    by (simp add: double_of_size_def round_nearest_even_0)
qed

lemma sum_expected_eq: "sum_expected A dataset = double_of_size (length dataset)"
  by (simp add: sum_expected_def fp_mul_def)

lemma timed_loop_last:
  "timed_loop A e invoke (Suc k) (sum0, err0, s0) = (x, err, s) \<Longrightarrow>
     x = last (invocations invoke s0 (Suc k)) \<and>
     err = fp_div A (fp_abs (fp_sub A e x)) e"
proof (induction k arbitrary: sum0 err0 s0)
  case 0
  then show ?case by (auto simp: Let_def split: prod.splits)
next
  case (Suc k)
  obtain y s1 where invoke: "invoke s0 = (y, s1)" by (cases "invoke s0")
  from Suc.prems invoke
  have "timed_loop A e invoke (Suc k) (y, fp_div A (fp_abs (fp_sub A e y)) e, s1) = (x, err, s)"
    by simp
  from Suc.IH [OF this] invoke show ?case by simp
qed


lemma timed_loop_sum:
  "fst (timed_loop A e invoke (Suc k) (x0, e0, s0)) = last (invocations invoke s0 (Suc k))"
  using timed_loop_last [of A e invoke k x0 e0 s0]
  by (cases "timed_loop A e invoke (Suc k) (x0, e0, s0)") simp

lemma timed_loop_error:
  "fst (snd (timed_loop A e invoke (Suc k) (x0, e0, s0))) =
     fp_div A (fp_abs (fp_sub A e (last (invocations invoke s0 (Suc k))))) e"
  using timed_loop_last [of A e invoke k x0 e0 s0]
  by (cases "timed_loop A e invoke (Suc k) (x0, e0, s0)") simp

lemma run_benchmark_generic:
  "run_benchmark A B ds f st = generic A ds st (invoke_acc B, construct B f ds)"
  by (cases f) (simp_all add: automatic_def)

lemma exact_arith_simps:
  "fp_sub exact_arith = exact_sub"
  "fp_div exact_arith = exact_div"
  "mul_rounded exact_arith = exact_mul"
  by (simp_all add: exact_arith_def fp_sub_def fp_div_def fun_eq_iff)

text \<open>
  The bound comes from the 53-bit significand: \<open>2^53 + 1\<close> is the first size that the
  conversion to \<open>double\<close> rounds.
\<close>

lemma double_of_size_rounds_above_2_53:
  "double_of_size 9007199254740993 = Finite 9007199254740992"
proof -
  have "bit_length 9007199254740993 = 54"
    by (simp add: bit_length.simps)
  then show ?thesis
    by (simp add: double_of_size_def round_nearest_even_def)
qed

lemma generic_state:
  "fst (generic A ds st acc) =
     (if thread_index st = 0 then
        st\<lparr>counters :=
          (counters st)
            (''adds/s'' \<mapsto>
               Counter (double_of_size (unat (iterations st * word_of_nat (length ds)))) kIsRate,
             ''bytes/s'' \<mapsto>
               Counter (double_of_size (unat (iterations st * word_of_nat (length ds) * size_of_float))) kIsRate,
             ''error,%'' \<mapsto>
               Counter (fp_mul A
                 (fst (snd (timed_loop A (sum_expected A ds) (fst acc) (max_iterations st)
                    (Finite 0, Finite 0, snd acc)))) (Finite 100)) kDefaults)\<rparr>
      else st)"
  by (simp add: generic_def Let_def case_prod_beta)

lemma total_ops_exact:
  assumes "n * m * 4 < (2::nat) ^ 64"
  shows "unat (word_of_nat n * word_of_nat m :: 64 word) = n * m"
    and "unat (word_of_nat n * word_of_nat m * size_of_float :: 64 word) = n * m * 4"
proof -
  have a: "n * m < 2 ^ 64"
    by (rule le_less_trans [OF _ assms]) simp
  have "unat (word_of_nat (n * m) :: 64 word) = n * m"
    using a by (simp add: unat_of_nat take_bit_nat_eq_self del: of_nat_mult)
  then show "unat (word_of_nat n * word_of_nat m :: 64 word) = n * m"
    by simp
  have "word_of_nat n * word_of_nat m * size_of_float = (word_of_nat (n * m * 4) :: 64 word)"
    by (simp add: size_of_float_def)
  moreover have "unat (word_of_nat (n * m * 4) :: 64 word) = n * m * 4"
    using assms by (simp add: unat_of_nat take_bit_nat_eq_self del: of_nat_mult of_nat_numeral)
  ultimately show "unat (word_of_nat n * word_of_nat m * size_of_float :: 64 word) = n * m * 4"
    by simp
qed

lemma generic_error_counter:
  assumes "thread_index st = 0" and "max_iterations st = Suc k"
  shows "counters (fst (generic A ds st acc)) ''error,%'' =
     Some (Counter (fp_mul A
       (fp_div A (fp_abs (fp_sub A (sum_expected A ds)
          (last (invocations (fst acc) (snd acc) (Suc k))))) (sum_expected A ds))
       (Finite 100)) kDefaults)"
proof -
  have "fst (snd (timed_loop A (sum_expected A ds) (fst acc) (max_iterations st)
                 (Finite 0, Finite 0, snd acc))) =
        fp_div A (fp_abs (fp_sub A (sum_expected A ds)
          (last (invocations (fst acc) (snd acc) (Suc k))))) (sum_expected A ds)"
    unfolding assms(2) by (rule timed_loop_error)
  then show ?thesis
    using assms(1) by (simp add: generic_state del: timed_loop.simps invocations.simps)
qed

lemma generic_accumulator:
  "snd (generic A ds st acc) =
     (fst acc, snd (snd (timed_loop A (sum_expected A ds) (fst acc) (max_iterations st)
        (Finite 0, Finite 0, snd acc))))"
  by (simp add: generic_def Let_def case_prod_beta)

subsection \<open>The expected sum and the relative error\<close>

text \<open>
  C1. For every dataset of \<open>N\<close> elements filled with \<open>1.0\<close>, \<open>N\<close> up to \<open>2^53\<close> (32 PiB of
  floats), the expected sum that \<open>generic\<close> uses is exactly \<open>N\<close>. Whatever the accumulator
  is, \<open>generic\<close> invokes it once per iteration, and after the invocation that ends
  iteration \<open>k + 1\<close> the error is \<open>|expected - observed| / expected\<close> for the sum that
  invocation returned, against that same expected value: it is the error that a lead
  thread publishes, times 100, when the loop ends there. Every case, the function of
  \<open>automatic\<close> or the OpenCL lambda, runs \<open>generic\<close> over the same dataset and publishes
  the error against the same expected value.
\<close>

theorem expected_sum_exact_up_to_2_53:
  assumes "N \<le> 2 ^ 53" and "thread_index st = 0" and "max_iterations st = Suc k"
  shows "sum_expected A (replicate N (Finite 1)) = Finite (real N) \<and>
         fst (snd (timed_loop A (sum_expected A (replicate N (Finite 1))) invoke (Suc k)
                     (Finite 0, Finite 0, s0))) =
           fp_div A (fp_abs (fp_sub A (Finite (real N)) (last (invocations invoke s0 (Suc k)))))
             (Finite (real N)) \<and>
         counters (fst (generic A (replicate N (Finite 1)) st acc)) ''error,%'' =
           Some (Counter (fp_mul A
             (fp_div A (fp_abs (fp_sub A (Finite (real N))
                (last (invocations (fst acc) (snd acc) (Suc k))))) (Finite (real N)))
             (Finite 100)) kDefaults) \<and>
         snd (generic A (replicate N (Finite 1)) st acc) =
           (fst acc, snd (snd (timed_loop A (Finite (real N)) (fst acc) (Suc k)
              (Finite 0, Finite 0, snd acc)))) \<and>
         counters (fst (run_benchmark A B (replicate N (Finite 1)) f st)) ''error,%'' =
           Some (Counter (fp_mul A
             (fp_div A (fp_abs (fp_sub A (Finite (real N))
                (last (invocations (invoke_acc B) (construct B f (replicate N (Finite 1))) (Suc k)))))
                (Finite (real N)))
             (Finite 100)) kDefaults) \<and>
         run_benchmark A B (replicate N (Finite 1)) f st =
           generic A (replicate N (Finite 1)) st (invoke_acc B, construct B f (replicate N (Finite 1)))"
proof -
  have e: "sum_expected A (replicate N (Finite 1)) = Finite (real N)"
    using assms(1) by (simp add: sum_expected_eq double_of_size_exact)
  note c = generic_error_counter [OF assms(2,3), of A "replicate N (Finite 1)", unfolded e]
  have g: "snd (generic A (replicate N (Finite 1)) st acc) =
           (fst acc, snd (snd (timed_loop A (Finite (real N)) (fst acc) (Suc k)
              (Finite 0, Finite 0, snd acc))))"
    by (simp only: generic_accumulator e assms(3))
  have r: "counters (fst (run_benchmark A B (replicate N (Finite 1)) f st)) ''error,%'' =
           Some (Counter (fp_mul A
             (fp_div A (fp_abs (fp_sub A (Finite (real N))
                (last (invocations (invoke_acc B) (construct B f (replicate N (Finite 1))) (Suc k)))))
                (Finite (real N)))
             (Finite 100)) kDefaults)"
    using c [of "(invoke_acc B, construct B f (replicate N (Finite 1)))"]
    by (simp only: run_benchmark_generic fst_conv snd_conv)
  show ?thesis
    using c [of acc] g r
    by (simp only: e timed_loop_error run_benchmark_generic simp_thms)
qed

text \<open>
  Four elements, two iterations, an accumulator that returns 3 and then 5: the error
  published is 25 percent, and the accumulator has been invoked twice.
\<close>

theorem expected_sum_exact_witness:
  "sum_expected exact_arith (replicate 4 (Finite 1)) = Finite 4 \<and>
   fst (snd (timed_loop exact_arith (sum_expected exact_arith (replicate 4 (Finite 1)))
               (\<lambda>s::nat. (Finite (3 + 2 * real s), Suc s)) (Suc (Suc 0)) (Finite 0, Finite 0, 0))) = Finite (1 / 4) \<and>
   counters (fst (generic exact_arith (replicate 4 (Finite 1))
       \<lparr>thread_index = 0, max_iterations = 2, counters = Map.empty\<rparr>
       (\<lambda>s::nat. (Finite (3 + 2 * real s), Suc s), 0))) ''error,%'' =
     Some (Counter (Finite 25) kDefaults) \<and>
   snd (generic exact_arith (replicate 4 (Finite 1))
       \<lparr>thread_index = 0, max_iterations = 2, counters = Map.empty\<rparr>
       (\<lambda>s::nat. (Finite (3 + 2 * real s), Suc s), 0)) =
     (\<lambda>s::nat. (Finite (3 + 2 * real s), Suc s), 2)"
  using expected_sum_exact_up_to_2_53 [where N = 4 and A = exact_arith
      and invoke = "\<lambda>s::nat. (Finite (3 + 2 * real s), Suc s)" and k = "Suc 0" and ?s0.0 = 0
      and acc = "(\<lambda>s::nat. (Finite (3 + 2 * real s), Suc s), 0)"
      and B = "\<lparr>construct = \<lambda>f ds. 0, invoke_acc = \<lambda>s::nat. (Finite (3 + 2 * real s), Suc s)\<rparr>"
      and f = "automatic_fn cpu_baseline_gt_float"
      and st = "\<lparr>thread_index = 0, max_iterations = 2, counters = Map.empty\<rparr>"]
  by (simp add: exact_arith_simps fp_mul_def)

subsection \<open>The published metrics\<close>

text \<open>
  C3. A lead thread that ran \<open>k + 1\<close> iterations publishes exactly three counters:
  \<open>adds/s\<close>, a rate, holds the number of iterations times the dataset size;
  \<open>bytes/s\<close>, a rate, holds that count times \<open>sizeof(float) = 4\<close>; \<open>error,%\<close> holds the
  relative error of the last invocation times 100. The products are those of the
  64-bit arithmetic of the code, which are the exact products as long as the byte count
  stays below \<open>2^64\<close>; each count is stored as the \<open>double\<close> it converts to.
\<close>

theorem published_metrics:
  assumes "thread_index st = 0" and "max_iterations st = Suc k"
    and "max_iterations st * length ds * 4 < 2 ^ 64"
  shows "counters (fst (generic A ds st acc)) =
     (counters st)
       (''adds/s'' \<mapsto> Counter (double_of_size (max_iterations st * length ds)) kIsRate,
        ''bytes/s'' \<mapsto> Counter (double_of_size (max_iterations st * length ds * 4)) kIsRate,
        ''error,%'' \<mapsto>
          Counter (fp_mul A
            (fp_div A (fp_abs (fp_sub A (sum_expected A ds)
               (last (invocations (fst acc) (snd acc) (Suc k))))) (sum_expected A ds))
            (Finite 100)) kDefaults) \<and>
     dom (counters (fst (generic A ds st acc))) =
       dom (counters st) \<union> {''adds/s'', ''bytes/s'', ''error,%''} \<and>
     card {''adds/s'', ''bytes/s'', ''error,%''} = 3"
proof -
  note ops = total_ops_exact [OF assms(3)]
  have e: "fst (snd (timed_loop A (sum_expected A ds) (fst acc) (max_iterations st)
                 (Finite 0, Finite 0, snd acc))) =
           fp_div A (fp_abs (fp_sub A (sum_expected A ds)
             (last (invocations (fst acc) (snd acc) (Suc k))))) (sum_expected A ds)"
    unfolding assms(2) by (rule timed_loop_error)
  have c: "counters (fst (generic A ds st acc)) =
     (counters st)
       (''adds/s'' \<mapsto> Counter (double_of_size (max_iterations st * length ds)) kIsRate,
        ''bytes/s'' \<mapsto> Counter (double_of_size (max_iterations st * length ds * 4)) kIsRate,
        ''error,%'' \<mapsto>
          Counter (fp_mul A
            (fp_div A (fp_abs (fp_sub A (sum_expected A ds)
               (last (invocations (fst acc) (snd acc) (Suc k))))) (sum_expected A ds))
            (Finite 100)) kDefaults)"
    using assms(1) ops
    by (simp add: generic_state iterations_def e del: timed_loop.simps invocations.simps)
  have d: "dom (counters (fst (generic A ds st acc))) =
       dom (counters st) \<union> {''adds/s'', ''bytes/s'', ''error,%''}"
    unfolding c by auto
  have "card {''adds/s'', ''bytes/s'', ''error,%''} = 3"
    by simp
  with c d show ?thesis by blast
qed

text \<open>
  C6. \<open>generic\<close> writes the three counters when the thread index of its state is 0,
  and only then: on any other thread the state comes back as it was.
\<close>

theorem only_lead_thread_publishes:
  "(thread_index st = 0 \<longrightarrow>
      dom (counters (fst (generic A ds st acc))) =
        dom (counters st) \<union> {''adds/s'', ''bytes/s'', ''error,%''}) \<and>
   (thread_index st \<noteq> 0 \<longrightarrow> fst (generic A ds st acc) = st)"
  unfolding generic_state by auto

subsection \<open>Decimal text and \<open>atol\<close>\<close>

lemma below_ten: "d < 10 \<Longrightarrow> d \<in> {0, 1, 2, 3, 4, 5, 6, 7, 8, 9::nat}"
  by auto

lemma digit_value_digit: "d < 10 \<Longrightarrow> digit_value (''0123456789'' ! d) = d"
  using below_ten [of d] by (auto simp: digit_value_def)

lemma digit_is_digit: "d < 10 \<Longrightarrow> is_digit (''0123456789'' ! d)"
  unfolding is_digit_def by (rule nth_mem) simp

lemma is_digit_not_space: "is_digit c \<Longrightarrow> c \<noteq> CHR '' ''"
  by (auto simp: is_digit_def)

lemma is_digit_no_sign_or_space:
  "is_digit c \<Longrightarrow> \<not> is_space c \<and> c \<noteq> CHR ''-'' \<and> c \<noteq> CHR ''+''"
  by (auto simp: is_digit_def is_space_def)

lemma decimal_digits: "\<forall>c \<in> set (decimal n). is_digit c"
proof (induction n rule: decimal.induct)
  case (1 n)
  show ?case
  proof (cases "n < 10")
    case True
    then show ?thesis by (subst decimal.simps) (simp add: digit_is_digit)
  next
    case False
    with 1 show ?thesis by (subst decimal.simps) (simp add: digit_is_digit)
  qed
qed

lemma decimal_not_Nil: "decimal n \<noteq> []"
  by (subst decimal.simps) simp

lemma digits_value_snoc: "digits_value (ds @ [c]) = 10 * digits_value ds + digit_value c"
  by (simp add: digits_value_def)

lemma digits_value_decimal: "digits_value (decimal n) = n"
proof (induction n rule: decimal.induct)
  case (1 n)
  show ?case
  proof (cases "n < 10")
    case True
    then show ?thesis
      by (subst decimal.simps) (simp add: digits_value_def digit_value_digit)
  next
    case False
    with 1 have "digits_value (decimal (n div 10)) = n div 10" by simp
    with False show ?thesis
      by (subst decimal.simps) (simp add: digits_value_snoc digit_value_digit)
  qed
qed

lemma decimal_inj:
  assumes "decimal n = decimal m"
  shows "n = m"
proof -
  from assms have "digits_value (decimal n) = digits_value (decimal m)"
    by (rule arg_cong)
  then show ?thesis by (simp only: digits_value_decimal)
qed

lemma takeWhile_decimal: "takeWhile is_digit (decimal n) = decimal n"
  using decimal_digits [of n] by (simp add: takeWhile_eq_all_conv)

lemma decimal_head: "\<exists>c r. decimal n = c # r \<and> is_digit c"
  using decimal_not_Nil [of n] decimal_digits [of n] by (cases "decimal n") auto

lemma atol_decimal:
  assumes "n < 2 ^ 63"
  shows "atol (decimal n) = int n"
proof -
  obtain c r where d: "decimal n = c # r" and c: "is_digit c"
    using decimal_head by blast
  from c have c': "\<not> is_space c" "c \<noteq> CHR ''-''" "c \<noteq> CHR ''+''"
    using is_digit_no_sign_or_space by blast+
  have "atol (c # r) = clamp_long (int (digits_value (takeWhile is_digit (c # r))))"
    using c' by (simp add: atol_def)
  then have "atol (decimal n) = clamp_long (int n)"
    by (simp add: d [symmetric] takeWhile_decimal digits_value_decimal)
  moreover have "int n < 2 ^ 63" using assms by (simp add: of_nat_less_iff [of n "2 ^ 63", simplified])
  ultimately show ?thesis by (simp add: clamp_long_def)
qed

lemma atol_minus_decimal:
  assumes "n \<le> 2 ^ 63"
  shows "atol (CHR ''-'' # decimal n) = - int n"
proof -
  have "atol (CHR ''-'' # decimal n) = clamp_long (- int (digits_value (takeWhile is_digit (decimal n))))"
    by (simp add: atol_def is_space_def)
  then have "atol (CHR ''-'' # decimal n) = clamp_long (- int n)"
    by (simp add: takeWhile_decimal digits_value_decimal)
  moreover have "int n \<le> 2 ^ 63" using assms by (simp add: of_nat_le_iff [of n "2 ^ 63", simplified])
  ultimately show ?thesis by (simp add: clamp_long_def)
qed

subsection \<open>Runs of the measurement loop on concrete inputs\<close>

text \<open>
  Four elements, two iterations, an accumulator that returns 3 and then 5: eight
  additions, 32 bytes, and an error of 25 percent.
\<close>

theorem published_metrics_witness:
  "counters (fst (generic exact_arith (replicate 4 (Finite 1))
       \<lparr>thread_index = 0, max_iterations = 2, counters = Map.empty\<rparr>
       (\<lambda>s::nat. (Finite (3 + 2 * real s), Suc s), 0))) =
     [''adds/s'' \<mapsto> Counter (Finite 8) kIsRate,
      ''bytes/s'' \<mapsto> Counter (Finite 32) kIsRate,
      ''error,%'' \<mapsto> Counter (Finite 25) kDefaults]"
  using published_metrics [where A = exact_arith and ds = "replicate 4 (Finite 1)"
      and st = "\<lparr>thread_index = 0, max_iterations = 2, counters = Map.empty\<rparr>"
      and acc = "(\<lambda>s::nat. (Finite (3 + 2 * real s), Suc s), 0)" and k = "Suc 0"]
  by (simp add: double_of_size_exact sum_expected_eq exact_arith_simps fp_mul_def)

text \<open>The same run on thread 0 and on thread 1.\<close>

theorem only_lead_thread_publishes_witness:
  "dom (counters (fst (generic exact_arith (replicate 4 (Finite 1))
       \<lparr>thread_index = 0, max_iterations = 2, counters = Map.empty\<rparr>
       (\<lambda>s::nat. (Finite 4, s), 0)))) = {''adds/s'', ''bytes/s'', ''error,%''} \<and>
   fst (generic exact_arith (replicate 4 (Finite 1))
       \<lparr>thread_index = 1, max_iterations = 2, counters = Map.empty\<rparr>
       (\<lambda>s::nat. (Finite 4, s), 0)) =
     \<lparr>thread_index = 1, max_iterations = 2, counters = Map.empty\<rparr>"
  using only_lead_thread_publishes [where A = exact_arith and ds = "replicate 4 (Finite 1)"
      and st = "\<lparr>thread_index = 0, max_iterations = 2, counters = Map.empty\<rparr>"
      and acc = "(\<lambda>s::nat. (Finite 4, s), 0)"]
    only_lead_thread_publishes [where A = exact_arith and ds = "replicate 4 (Finite 1)"
      and st = "\<lparr>thread_index = 1, max_iterations = 2, counters = Map.empty\<rparr>"
      and acc = "(\<lambda>s::nat. (Finite 4, s), 0)"]
  by simp

subsection \<open>The element count\<close>

lemma elements_arg: "1 < length argv \<Longrightarrow> elements argv = word_of_int (atol (argv ! 1))"
  by (simp add: elements_def parse_elements_def)

lemma elements_default: "length argv \<le> 1 \<Longrightarrow> elements argv = 268435456"
  by (simp add: elements_def parse_elements_def size_of_float_def)

lemma main_built:
  "unat (elements argv) \<le> max_alloc E \<Longrightarrow>
     \<exists>r. main E argv = Inr r \<and> built r = replicate (unat (elements argv)) (Finite 1)"
  by (simp add: main_def elements_def build_dataset_def case_prod_beta Let_def)

lemma main_fails:
  "max_alloc E < unat (elements argv) \<Longrightarrow>
     main E argv = Inl (fst (parse_elements argv), Allocation_failed)"
  by (simp add: main_def elements_def build_dataset_def case_prod_beta Let_def)

text \<open>
  C9. When the positional argument parses to zero, the requested element count is 0,
  \<open>main\<close> builds the empty dataset, the expected sum is 0, and \<open>generic\<close>, run on that
  dataset, divides by that zero at every iteration: after iteration \<open>k + 1\<close> the error is
  the quotient of \<open>|0 - sum|\<close> by \<open>0\<close>, and that quotient times 100 is what a lead thread
  publishes when the loop ends there, for every case. No branch of \<open>generic\<close> guards the
  division.
\<close>

theorem zero_elements_divide_by_zero:
  assumes "1 < length argv" and "atol (argv ! 1) = 0"
    and "thread_index st = 0" and "max_iterations st = Suc k"
  shows "elements argv = 0 \<and>
         (\<exists>r. main E argv = Inr r \<and> built r = [] \<and>
            counters (fst (generic A (built r) st acc)) ''error,%'' =
              Some (Counter (fp_mul A
                (fp_div A (fp_abs (fp_sub A (Finite 0)
                   (last (invocations (fst acc) (snd acc) (Suc k))))) (Finite 0))
                (Finite 100)) kDefaults) \<and>
            counters (fst (run_benchmark A B (built r) f st)) ''error,%'' =
              Some (Counter (fp_mul A
                (fp_div A (fp_abs (fp_sub A (Finite 0)
                   (last (invocations (invoke_acc B) (construct B f (built r)) (Suc k))))) (Finite 0))
                (Finite 100)) kDefaults)) \<and>
         sum_expected A [] = Finite 0 \<and>
         fst (snd (timed_loop A (sum_expected A []) invoke (Suc k) (Finite 0, Finite 0, s0))) =
           fp_div A (fp_abs (fp_sub A (Finite 0) (last (invocations invoke s0 (Suc k))))) (Finite 0)"
proof -
  have z: "elements argv = 0"
    using assms(1,2) by (simp add: elements_arg)
  obtain r where m: "main E argv = Inr r" and b: "built r = []"
    using main_built [of argv E] by (auto simp: z)
  have e: "sum_expected A [] = Finite 0"
    by (simp add: sum_expected_eq double_of_size_exact)
  note c = generic_error_counter [OF assms(3,4), of A "[]", unfolded e]
  have "counters (fst (run_benchmark A B [] f st)) ''error,%'' =
              Some (Counter (fp_mul A
                (fp_div A (fp_abs (fp_sub A (Finite 0)
                   (last (invocations (invoke_acc B) (construct B f []) (Suc k))))) (Finite 0))
                (Finite 100)) kDefaults)"
    using c [of "(invoke_acc B, construct B f [])"]
    by (simp only: run_benchmark_generic fst_conv snd_conv)
  with c [of acc] m b
  have "\<exists>r. main E argv = Inr r \<and> built r = [] \<and>
            counters (fst (generic A (built r) st acc)) ''error,%'' =
              Some (Counter (fp_mul A
                (fp_div A (fp_abs (fp_sub A (Finite 0)
                   (last (invocations (fst acc) (snd acc) (Suc k))))) (Finite 0))
                (Finite 100)) kDefaults) \<and>
            counters (fst (run_benchmark A B (built r) f st)) ''error,%'' =
              Some (Counter (fp_mul A
                (fp_div A (fp_abs (fp_sub A (Finite 0)
                   (last (invocations (invoke_acc B) (construct B f (built r)) (Suc k))))) (Finite 0))
                (Finite 100)) kDefaults)"
    by (intro exI [of _ r]) (simp only: simp_thms)
  then show ?thesis
    by (simp only: z e timed_loop_error simp_thms)
qed

text \<open>
  With the argument \<open>0\<close> and an accumulator that returns 0, the error published is
  \<open>0 / 0\<close>.
\<close>

theorem zero_elements_witness:
  "elements [''reduce_bench'', ''0''] = 0 \<and>
   built (projr (main (example_env [] 0) [''reduce_bench'', ''0''])) = [] \<and>
   counters (fst (generic exact_arith (built (projr (main (example_env [] 0) [''reduce_bench'', ''0''])))
       \<lparr>thread_index = 0, max_iterations = 2, counters = Map.empty\<rparr>
       (\<lambda>s::nat. (Finite 0, s), 0))) ''error,%'' = Some (Counter NaN kDefaults) \<and>
   sum_expected exact_arith [] = Finite 0 \<and>
   fst (snd (timed_loop exact_arith (sum_expected exact_arith []) (\<lambda>s::nat. (Finite 0, s))
      (Suc (Suc 0)) (Finite 0, Finite 0, 0))) = NaN"
proof -
  note t = zero_elements_divide_by_zero [where argv = "[''reduce_bench'', ''0'']"
      and A = exact_arith and invoke = "\<lambda>s::nat. (Finite 0, s)" and k = "Suc 0" and ?s0.0 = 0
      and E = "example_env [] 0" and acc = "(\<lambda>s::nat. (Finite 0, s), 0)"
      and st = "\<lparr>thread_index = 0, max_iterations = 2, counters = Map.empty\<rparr>"
      and B = "\<lparr>construct = \<lambda>f ds. 0, invoke_acc = \<lambda>s::nat. (Finite 0, s)\<rparr>"
      and f = "automatic_fn cpu_baseline_gt_float"]
  have a: "atol ([''reduce_bench'', ''0''] ! 1) = 0"
    by (simp add: atol_def is_space_def is_digit_def digits_value_def digit_value_def clamp_long_def)
  have l: "1 < length [''reduce_bench'', ''0'']" by simp
  have s: "thread_index \<lparr>thread_index = 0, max_iterations = 2, counters = Map.empty\<rparr> = 0"
    "max_iterations \<lparr>thread_index = 0, max_iterations = 2, counters = Map.empty\<rparr> = Suc (Suc 0)"
    by simp_all
  note u = t [OF l a s]
  from u obtain r where r: "main (example_env [] 0) [''reduce_bench'', ''0''] = Inr r"
    "built r = []"
    "counters (fst (generic exact_arith (built r)
       \<lparr>thread_index = 0, max_iterations = 2, counters = Map.empty\<rparr>
       (\<lambda>s::nat. (Finite 0, s), 0))) ''error,%'' =
     Some (Counter (fp_mul exact_arith (fp_div exact_arith (fp_abs (fp_sub exact_arith (Finite 0)
        (last (invocations (fst (\<lambda>s::nat. (Finite 0, s), 0::nat)) (snd (\<lambda>s::nat. (Finite 0, s), 0::nat)) (Suc (Suc 0))))))
        (Finite 0)) (Finite 100)) kDefaults)"
    by blast
  have p: "projr (main (example_env [] 0) [''reduce_bench'', ''0'']) = r"
    by (simp add: r(1))
  have "counters (fst (generic exact_arith (built r)
       \<lparr>thread_index = 0, max_iterations = 2, counters = Map.empty\<rparr>
       (\<lambda>s::nat. (Finite 0, s), 0))) ''error,%'' = Some (Counter NaN kDefaults)"
    unfolding r(3) by (simp add: exact_arith_simps fp_mul_def)
  moreover from u have "elements [''reduce_bench'', ''0''] = 0" by blast
  moreover from u have "sum_expected exact_arith [] = Finite 0" by blast
  moreover from u have "fst (snd (timed_loop exact_arith (sum_expected exact_arith []) (\<lambda>s::nat. (Finite 0, s))
      (Suc (Suc 0)) (Finite 0, Finite 0, 0))) = NaN"
    by (simp add: exact_arith_simps)
  ultimately show ?thesis
    unfolding p using r(2) by blast
qed

text \<open>
  C10. A positional argument that is a minus sign followed by the decimal digits of \<open>n\<close>,
  with \<open>0 < n \<le> 2^63\<close>, is parsed by \<open>atol\<close> as the \<open>long\<close> \<open>-n\<close>; the cast to \<open>size_t\<close>
  wraps it modulo \<open>2^64\<close>, so \<open>2^64 - n\<close> elements are requested. \<open>parse_elements\<close> has
  no outcome that rejects the argument.
\<close>

theorem negative_argument_wraps:
  assumes "0 < n" and "n \<le> 2 ^ 63" and "argv = prog # (CHR ''-'' # decimal n) # rest"
  shows "atol (argv ! 1) = - int n \<and> unat (elements argv) = 2 ^ 64 - n"
proof -
  have a: "atol (argv ! 1) = - int n"
    using assms(2,3) by (simp add: atol_minus_decimal)
  have "1 < length argv"
    using assms(3) by simp
  then have "elements argv = word_of_int (- int n)"
    by (simp only: elements_arg a)
  then have "uint (elements argv) = (- int n) mod 2 ^ 64"
    by (simp only: uint_word_of_int take_bit_eq_mod) simp
  also have "\<dots> = 2 ^ 64 - int n"
  proof -
    have "int n \<le> 2 ^ 63" using assms(2) by (simp add: of_nat_le_iff [of n "2 ^ 63", simplified])
    moreover have "0 < int n" using assms(1) by simp
    ultimately have "0 \<le> 2 ^ 64 - int n" "2 ^ 64 - int n < 2 ^ 64" by simp_all
    then have "(2 ^ 64 - int n) mod 2 ^ 64 = 2 ^ 64 - int n" by (rule mod_pos_pos_trivial)
    moreover have "(- int n) mod 2 ^ 64 = (2 ^ 64 - int n) mod 2 ^ 64"
      by (simp only: minus_mod_self1)
    ultimately show ?thesis by simp
  qed
  finally have "uint (elements argv) = 2 ^ 64 - int n" .
  then have "int (unat (elements argv)) = int (2 ^ 64 - n)"
    using assms(2) by (simp add: of_nat_diff)
  then have "unat (elements argv) = 2 ^ 64 - n" by (simp only: of_nat_eq_iff)
  with a show ?thesis by simp
qed

text \<open>The argument \<open>-1\<close> requests \<open>2^64 - 1\<close> elements.\<close>

theorem negative_argument_witness:
  "atol ''-1'' = - 1 \<and> unat (elements [''reduce_bench'', ''-1'']) = 18446744073709551615"
  using negative_argument_wraps [where n = 1 and argv = "[''reduce_bench'', ''-1'']"
      and prog = "''reduce_bench''" and rest = "[]"]
  by (simp add: decimal.simps)

subsection \<open>Registration\<close>

lemma RegisterBenchmark_append:
  "RegisterBenchmark nm f reg =
     reg @ [\<lparr>bench_name = nm, bench_fn = f, bench_min_time = 10, bench_use_real_time = True\<rparr>]"
  by (simp add: RegisterBenchmark_def)

lemma register_group_sizes_append:
  "register_group_sizes t k gs reg = reg @ map (opencl_case t k) gs"
  unfolding register_group_sizes_def
  by (induction gs arbitrary: reg) (simp_all add: RegisterBenchmark_def opencl_case_def)

lemma register_kernels_append:
  "register_kernels t ks gs reg = reg @ concat (map (\<lambda>k. map (opencl_case t k) gs) ks)"
  unfolding register_kernels_def
  by (induction ks arbitrary: reg) (simp_all add: register_group_sizes_append)

lemma register_opencl_append:
  "register_opencl ts ks gs reg =
     reg @ concat (map (\<lambda>t. concat (map (\<lambda>k. map (opencl_case t k) gs) ks)) ts)"
  unfolding register_opencl_def
  by (induction ts arbitrary: reg) (simp_all add: register_kernels_append)

lemma concat_map_product:
  "concat (map (\<lambda>x. map (f x) ys) xs) = map (\<lambda>(x, y). f x y) (List.product xs ys)"
  by (induction xs) simp_all

lemma register_opencl_product:
  "register_opencl ts ks gs reg =
     reg @ map (\<lambda>(t, k, g). opencl_case t k g) (List.product ts (List.product ks gs))"
proof -
  have "concat (map (\<lambda>t. concat (map (\<lambda>k. map (opencl_case t k) gs) ks)) ts) =
        concat (map (\<lambda>t. map (\<lambda>(k, g). opencl_case t k g) (List.product ks gs)) ts)"
    by (simp only: concat_map_product)
  also have "\<dots> = map (\<lambda>(t, k, g). opencl_case t k g) (List.product ts (List.product ks gs))"
    by (simp only: concat_map_product [of "\<lambda>t (k, g). opencl_case t k g"])
  finally show ?thesis by (simp add: register_opencl_append)
qed

lemma split_at_space:
  assumes "CHR '' '' \<notin> set a" and "CHR '' '' \<notin> set b"
    and "a @ CHR '' '' # r = b @ CHR '' '' # s"
  shows "a = b \<and> r = s"
proof -
  have "takeWhile (\<lambda>c. c \<noteq> CHR '' '') (a @ CHR '' '' # r) = a"
    using assms(1) by (subst takeWhile_append2) auto
  moreover have "takeWhile (\<lambda>c. c \<noteq> CHR '' '') (b @ CHR '' '' # s) = b"
    using assms(2) by (subst takeWhile_append2) auto
  ultimately have "a = b" using assms(3) by simp
  with assms(3) show ?thesis by simp
qed

lemma decimal_no_space: "CHR '' '' \<notin> set (decimal n)"
  using decimal_digits [of n] is_digit_not_space by blast

lemma opencl_case_name_inj:
  assumes "CHR '' '' \<notin> set k" and "CHR '' '' \<notin> set k'"
    and "opencl_case_name k g d = opencl_case_name k' g' d'"
  shows "k = k' \<and> g = g' \<and> d = d'"
proof -
  from assms(3)
  have "k @ CHR '' '' # (''split by '' @ decimal g @ '' on '' @ d) =
        k' @ CHR '' '' # (''split by '' @ decimal g' @ '' on '' @ d')"
    by (simp add: opencl_case_name_def)
  from split_at_space [OF assms(1,2) this]
  have k: "k = k'" and "decimal g @ CHR '' '' # (''on '' @ d) = decimal g' @ CHR '' '' # (''on '' @ d')"
    by simp_all
  from split_at_space [OF decimal_no_space decimal_no_space this(2)]
  have "decimal g = decimal g'" and d: "d = d'"
    by simp_all
  then have "g = g'" by (simp add: decimal_inj)
  with k d show ?thesis by simp
qed

lemma opencl_case_name_contains:
  "sublist k (opencl_case_name k g d)"
  "sublist (decimal g) (opencl_case_name k g d)"
  "sublist d (opencl_case_name k g d)"
proof -
  show "sublist k (opencl_case_name k g d)"
    unfolding opencl_case_name_def by (rule sublist_appendI)
  have "opencl_case_name k g d = (''opencl-'' @ k @ '' split by '') @ decimal g @ ('' on '' @ d)"
    by (simp add: opencl_case_name_def)
  then show "sublist (decimal g) (opencl_case_name k g d)"
    by (simp only: sublist_appendI)
  have "opencl_case_name k g d = (''opencl-'' @ k @ '' split by '' @ decimal g @ '' on '') @ d"
    by (simp add: opencl_case_name_def)
  then show "sublist d (opencl_case_name k g d)"
    by (simp only: sublist_append_leftI)
qed

lemma opencl_names_distinct:
  assumes "distinct (map device_name ts)" and "distinct ks" and "distinct gs"
    and "\<forall>k \<in> set ks. CHR '' '' \<notin> set k"
  shows "distinct (map bench_name
           (map (\<lambda>(t, k, g). opencl_case t k g) (List.product ts (List.product ks gs))))"
proof -
  from assms(1) have ts: "distinct ts" and inj: "inj_on device_name (set ts)"
    by (simp_all add: distinct_map)
  have d: "distinct (List.product ts (List.product ks gs))"
    using ts assms(2,3) by (simp add: distinct_product)
  have "inj_on (\<lambda>(t, k, g). bench_name (opencl_case t k g))
          (set (List.product ts (List.product ks gs)))"
  proof (rule inj_onI)
    fix x y
    assume x: "x \<in> set (List.product ts (List.product ks gs))"
      and y: "y \<in> set (List.product ts (List.product ks gs))"
      and e: "(case x of (t, k, g) \<Rightarrow> bench_name (opencl_case t k g)) =
              (case y of (t, k, g) \<Rightarrow> bench_name (opencl_case t k g))"
    obtain t k g where x': "x = (t, k, g)" by (cases x) auto
    obtain t' k' g' where y': "y = (t', k', g')" by (cases y) auto
    from x y have k: "CHR '' '' \<notin> set k" "CHR '' '' \<notin> set k'" and t: "t \<in> set ts" "t' \<in> set ts"
      using assms(4) by (auto simp: x' y')
    from e have "opencl_case_name k g (device_name t) = opencl_case_name k' g' (device_name t')"
      by (simp add: opencl_case_def x' y')
    from opencl_case_name_inj [OF k this]
    have r: "k = k'" "g = g'" "device_name t = device_name t'" by simp_all
    from r(3) t inj have "t = t'" by (simp add: inj_on_def)
    with r show "x = y" by (simp add: x' y')
  qed
  with d have "distinct (map (\<lambda>(t, k, g). bench_name (opencl_case t k g))
                 (List.product ts (List.product ks gs)))"
    by (simp add: distinct_map)
  moreover have "map bench_name (map (\<lambda>(t, k, g). opencl_case t k g) (List.product ts (List.product ks gs))) =
     map (\<lambda>(t, k, g). bench_name (opencl_case t k g)) (List.product ts (List.product ks gs))"
    by (simp add: case_prod_beta comp_def)
  ultimately show ?thesis by (simp only:)
qed

lemma register_cpu_eq:
  "register_cpu reg = reg @ register_cpu []"
  by (simp add: register_cpu_def register_each_def RegisterBenchmark_def)

lemma register_cuda_eq:
  "snd (register_cuda c reg) = reg @ cuda_cases c"
  by (simp add: cuda_cases_def register_cuda_def register_each_def RegisterBenchmark_def)

lemma main_registered:
  assumes "main E argv = Inr r"
  shows "registered r = register_cpu [] @ cuda_cases (cuda_device_count E) @ opencl_cases E"
    and "printed r = fst (parse_elements argv) @ map target_line (opencl_targets E) @
           fst (register_cuda (cuda_device_count E) (register_cpu []))"
proof -
  obtain ds where "build_dataset (max_alloc E) (snd (parse_elements argv)) = Inr ds"
    using assms by (cases "build_dataset (max_alloc E) (snd (parse_elements argv))")
      (simp_all add: main_def case_prod_beta)
  with assms have r: "r = \<lparr>printed = fst (parse_elements argv) @ map target_line (opencl_targets E) @
           fst (register_cuda (cuda_device_count E) (register_cpu [])), built = ds,
         registered = register_opencl (opencl_targets E) (kernels_k E) (opencl_wg_sizes E)
           (snd (register_cuda (cuda_device_count E) (register_cpu [])))\<rparr>"
    by (simp add: main_def case_prod_beta Let_def)
  show "registered r = register_cpu [] @ cuda_cases (cuda_device_count E) @ opencl_cases E"
    unfolding r by (simp add: register_opencl_append opencl_cases_def register_cuda_eq)
  show "printed r = fst (parse_elements argv) @ map target_line (opencl_targets E) @
           fst (register_cuda (cuda_device_count E) (register_cpu []))"
    unfolding r by simp
qed

lemma opencl_cases_product:
  "opencl_cases E = map (\<lambda>(t, k, g). opencl_case t k g)
     (List.product (opencl_targets E) (List.product (kernels_k E) (opencl_wg_sizes E)))"
  by (simp add: opencl_cases_def register_opencl_product)

lemma opencl_cases_are_opencl: "b \<in> set (opencl_cases E) \<Longrightarrow> is_opencl (bench_fn b)"
  by (auto simp: opencl_cases_product opencl_case_def)

lemma cpu_cases_kind:
  "b \<in> set (register_cpu []) \<Longrightarrow> \<not> is_opencl (bench_fn b) \<and> \<not> is_cuda (bench_fn b)"
  by (auto simp: register_cpu_def register_each_def RegisterBenchmark_def is_cuda_def)

lemma cuda_cases_kind:
  "b \<in> set (cuda_cases c) \<Longrightarrow> \<not> is_opencl (bench_fn b) \<and> is_cuda (bench_fn b)"
  by (auto simp: cuda_cases_def register_cuda_def register_each_def RegisterBenchmark_def is_cuda_def split: if_splits)

lemma opencl_cases_not_cuda: "b \<in> set (opencl_cases E) \<Longrightarrow> \<not> is_cuda (bench_fn b)"
  by (auto simp: opencl_cases_product opencl_case_def is_cuda_def)

lemma filter_opencl_main:
  assumes "main E argv = Inr r"
  shows "filter (\<lambda>b. is_opencl (bench_fn b)) (registered r) = opencl_cases E"
proof -
  have "filter (\<lambda>b. is_opencl (bench_fn b)) (register_cpu []) = []"
    using cpu_cases_kind by (simp add: filter_empty_conv)
  moreover have "filter (\<lambda>b. is_opencl (bench_fn b)) (cuda_cases (cuda_device_count E)) = []"
    using cuda_cases_kind by (simp add: filter_empty_conv)
  moreover have "filter (\<lambda>b. is_opencl (bench_fn b)) (opencl_cases E) = opencl_cases E"
    using opencl_cases_are_opencl by (simp add: filter_id_conv)
  ultimately show ?thesis
    by (simp add: main_registered(1) [OF assms])
qed

subsection \<open>The dynamically generated cases\<close>

text \<open>
  C2 (amended). The OpenCL loops register one case for every target, kernel name and
  work-group size, so there are \<open>|targets| * |kernels| * |sizes|\<close> dynamically generated
  cases, and they are the OpenCL cases of the final list of \<open>main\<close>. The label of a case
  contains its kernel name, its size in decimal and the device name of its target. The
  labels are pairwise distinct when the device names of the targets are pairwise
  distinct, and so are the kernel names, which contain no space, and the sizes.
\<close>

theorem opencl_case_matrix:
  "length (opencl_cases E) =
     length (opencl_targets E) * length (kernels_k E) * length (opencl_wg_sizes E) \<and>
   opencl_cases E = map (\<lambda>(t, k, g). opencl_case t k g)
     (List.product (opencl_targets E) (List.product (kernels_k E) (opencl_wg_sizes E))) \<and>
   sublist k (bench_name (opencl_case t k g)) \<and>
   sublist (decimal g) (bench_name (opencl_case t k g)) \<and>
   sublist (device_name t) (bench_name (opencl_case t k g)) \<and>
   (main E argv = Inr r \<longrightarrow>
      filter (\<lambda>b. is_opencl (bench_fn b)) (registered r) = opencl_cases E) \<and>
   (distinct (map device_name (opencl_targets E)) \<and> distinct (kernels_k E) \<and>
    distinct (opencl_wg_sizes E) \<and> (\<forall>k \<in> set (kernels_k E). CHR '' '' \<notin> set k) \<longrightarrow>
      distinct (map bench_name (opencl_cases E)))"
proof -
  have "length (opencl_cases E) =
     length (opencl_targets E) * length (kernels_k E) * length (opencl_wg_sizes E)"
    by (simp add: opencl_cases_product)
  moreover have "bench_name (opencl_case t k g) = opencl_case_name k g (device_name t)"
    by (simp add: opencl_case_def)
  ultimately show ?thesis
    using opencl_names_distinct [of "opencl_targets E" "kernels_k E" "opencl_wg_sizes E"]
      filter_opencl_main [of E argv r]
    by (simp add: opencl_case_name_contains opencl_cases_product [symmetric])
qed

lemma example_env_simps:
  "max_alloc (example_env ts c) = 268435456"
  "opencl_targets (example_env ts c) = ts"
  "cuda_device_count (example_env ts c) = c"
  "kernels_k (example_env ts c) = [''reduce_simple'', ''reduce_w_modulo'', ''reduce_in_shared'']"
  "opencl_wg_sizes (example_env ts c) = [8, 128]"
  by (simp_all add: example_env_def)

lemma main_example:
  "main (example_env ts c) [''reduce_bench'', ''4''] =
     Inr (projr (main (example_env ts c) [''reduce_bench'', ''4'']))"
proof -
  have "elements [''reduce_bench'', ''4''] = 4"
    by (simp add: elements_arg atol_def is_space_def is_digit_def digits_value_def digit_value_def
        clamp_long_def)
  then have "unat (elements [''reduce_bench'', ''4'']) \<le> max_alloc (example_env ts c)"
    by (simp add: example_env_simps)
  from main_built [OF this] show ?thesis by auto
qed

text \<open>Two targets named A and B: twelve cases with distinct labels.\<close>

theorem opencl_case_matrix_witness:
  "length (opencl_cases (example_env [gpu ''A'' ''535.1'', gpu ''B'' ''535.1''] 0)) = 12 \<and>
   distinct (map bench_name (opencl_cases (example_env [gpu ''A'' ''535.1'', gpu ''B'' ''535.1''] 0))) \<and>
   sublist ''reduce_simple'' (bench_name (opencl_case (gpu ''A'' ''535.1'') ''reduce_simple'' 128)) \<and>
   sublist ''128'' (bench_name (opencl_case (gpu ''A'' ''535.1'') ''reduce_simple'' 128)) \<and>
   sublist ''A'' (bench_name (opencl_case (gpu ''A'' ''535.1'') ''reduce_simple'' 128)) \<and>
   filter (\<lambda>b. is_opencl (bench_fn b))
     (registered (projr (main (example_env [gpu ''A'' ''535.1'', gpu ''B'' ''535.1''] 0) [''reduce_bench'', ''4'']))) =
     opencl_cases (example_env [gpu ''A'' ''535.1'', gpu ''B'' ''535.1''] 0)"
proof -
  let ?E = "example_env [gpu ''A'' ''535.1'', gpu ''B'' ''535.1''] 0"
  let ?r = "projr (main ?E [''reduce_bench'', ''4''])"
  note m = opencl_case_matrix [where E = ?E and argv = "[''reduce_bench'', ''4'']"
      and k = "''reduce_simple''" and g = 128 and t = "gpu ''A'' ''535.1''" and r = ?r]
  have "length (opencl_cases ?E) = 12"
    using m [THEN conjunct1] by (simp add: example_env_simps)
  moreover have "distinct (map bench_name (opencl_cases ?E))"
  proof -
    have "distinct (map device_name (opencl_targets ?E)) \<and> distinct (kernels_k ?E) \<and>
          distinct (opencl_wg_sizes ?E) \<and> (\<forall>k \<in> set (kernels_k ?E). CHR '' '' \<notin> set k)"
      by (simp add: example_env_simps gpu_def)
    with m show ?thesis by blast
  qed
  moreover have "sublist ''reduce_simple'' (bench_name (opencl_case (gpu ''A'' ''535.1'') ''reduce_simple'' 128))"
    using m by blast
  moreover have "sublist ''128'' (bench_name (opencl_case (gpu ''A'' ''535.1'') ''reduce_simple'' 128))"
  proof -
    have "decimal 128 = ''128''" by (simp add: decimal.simps)
    with m show ?thesis by simp
  qed
  moreover have "sublist ''A'' (bench_name (opencl_case (gpu ''A'' ''535.1'') ''reduce_simple'' 128))"
  proof -
    have "device_name (gpu ''A'' ''535.1'') = ''A''" by (simp add: gpu_def)
    with m show ?thesis by simp
  qed
  moreover have "filter (\<lambda>b. is_opencl (bench_fn b)) (registered ?r) = opencl_cases ?E"
    using m main_example [of "[gpu ''A'' ''535.1'', gpu ''B'' ''535.1'']" 0] by blast
  ultimately show ?thesis by blast
qed

text \<open>
  Two different targets that report the same device name: twelve cases, and labels that
  repeat.
\<close>

theorem opencl_labels_collide:
  "length (opencl_cases (example_env [gpu ''A'' ''535.1'', gpu ''A'' ''470.2''] 0)) = 12 \<and>
   \<not> distinct (map bench_name (opencl_cases (example_env [gpu ''A'' ''535.1'', gpu ''A'' ''470.2''] 0)))"
  by (simp add: opencl_cases_product example_env_simps opencl_case_def gpu_def)

subsection \<open>Absent devices\<close>

lemma target_line_not_notice: "target_line t \<noteq> no_cuda_notice"
  by (simp add: target_line_def no_cuda_notice_def)

lemma count_target_lines: "count_list (map target_line ts) no_cuda_notice = 0"
  by (induction ts) (simp_all add: target_line_not_notice)

lemma count_parse_elements: "count_list (fst (parse_elements argv)) no_cuda_notice = 0"
  by (simp add: parse_elements_def default_notice_def no_cuda_notice_def)

lemma opencl_case_names:
  "b \<in> set (opencl_cases E) \<Longrightarrow> \<exists>s. bench_name b = ''opencl-'' @ s"
  by (auto simp: opencl_cases_product opencl_case_def opencl_case_name_def)

lemma cpu_case_names:
  "b \<in> set (register_cpu []) \<Longrightarrow> \<exists>s. bench_name b = ''cpu_'' @ s"
  by (auto simp: register_cpu_def register_each_def RegisterBenchmark_def)

text \<open>
  C4. When \<open>cuda_device_count()\<close> is zero, the final list of cases of \<open>main\<close> has no
  CUDA-backed case, none of the three CUDA names, and the notice that no CUDA capable
  device was found is printed once. When \<open>opencl_targets()\<close> is empty, the final list has
  no OpenCL case: the OpenCL loops register nothing.
\<close>

theorem no_device_no_case:
  assumes "main E argv = Inr r"
  shows "(cuda_device_count E = 0 \<longrightarrow>
            filter (\<lambda>b. is_cuda (bench_fn b)) (registered r) = [] \<and>
            set (map bench_name (registered r)) \<inter> {''cuda_cub'', ''cuda_warps'', ''cuda_thrust''} = {} \<and>
            count_list (printed r) no_cuda_notice = 1) \<and>
         (opencl_targets E = [] \<longrightarrow>
            filter (\<lambda>b. is_opencl (bench_fn b)) (registered r) = [] \<and> opencl_cases E = [])"
proof -
  note reg = main_registered(1) [OF assms] and out = main_registered(2) [OF assms]
  have cuda: "cuda_device_count E = 0 \<Longrightarrow> cuda_cases (cuda_device_count E) = []"
    by (simp add: cuda_cases_def register_cuda_def)
  have a: "filter (\<lambda>b. is_cuda (bench_fn b)) (registered r) = []" if "cuda_device_count E = 0"
    using cuda [OF that] cpu_cases_kind opencl_cases_not_cuda
    by (auto simp: reg filter_empty_conv)
  have b: "set (map bench_name (registered r)) \<inter> {''cuda_cub'', ''cuda_warps'', ''cuda_thrust''} = {}"
    if "cuda_device_count E = 0"
  proof -
    have "bench_name x \<notin> {''cuda_cub'', ''cuda_warps'', ''cuda_thrust''}" if "x \<in> set (registered r)" for x
    proof -
      from that cuda [OF \<open>cuda_device_count E = 0\<close>]
      consider "x \<in> set (register_cpu [])" | "x \<in> set (opencl_cases E)"
        by (auto simp: reg)
      then show ?thesis
      proof cases
        case 1
        then obtain s where "bench_name x = ''cpu_'' @ s" using cpu_case_names by blast
        then show ?thesis by auto
      next
        case 2
        then obtain s where "bench_name x = ''opencl-'' @ s" using opencl_case_names by blast
        then show ?thesis by auto
      qed
    qed
    then have "bench_name ` set (registered r) \<inter> {''cuda_cub'', ''cuda_warps'', ''cuda_thrust''} = {}"
      by blast
    then show ?thesis by (simp only: set_map)
  qed
  have c: "count_list (printed r) no_cuda_notice = 1" if "cuda_device_count E = 0"
    using that by (simp add: out count_target_lines count_parse_elements register_cuda_def)
  have d: "opencl_cases E = []" if "opencl_targets E = []"
    using that by (simp add: opencl_cases_product)
  have e: "filter (\<lambda>b. is_opencl (bench_fn b)) (registered r) = []" if "opencl_targets E = []"
    using d [OF that] by (simp add: filter_opencl_main [OF assms])
  from a b c d e show ?thesis by blast
qed

text \<open>A machine with no CUDA device and no OpenCL target.\<close>

theorem no_device_no_case_witness:
  "main (example_env [] 0) [''reduce_bench'', ''4''] =
     Inr (projr (main (example_env [] 0) [''reduce_bench'', ''4''])) \<and>
   filter (\<lambda>b. is_cuda (bench_fn b))
     (registered (projr (main (example_env [] 0) [''reduce_bench'', ''4'']))) = [] \<and>
   count_list (printed (projr (main (example_env [] 0) [''reduce_bench'', ''4'']))) no_cuda_notice = 1 \<and>
   filter (\<lambda>b. is_opencl (bench_fn b))
     (registered (projr (main (example_env [] 0) [''reduce_bench'', ''4'']))) = []"
  using no_device_no_case [OF main_example [of "[]" 0]]
  by (simp add: example_env_simps main_example [symmetric])

subsection \<open>The positional argument\<close>

text \<open>
  C5 (amended). The first argument after the program name, whenever there is one, is
  read as the element count: the count is \<open>atol\<close> of its text cast to \<open>size_t\<close>, no notice
  is printed, and the dataset that \<open>main\<close> builds (when the allocator grants that many
  floats) has that many elements, each \<open>1.0\<close>; for the decimal text of \<open>n\<close> the count is
  \<open>n\<close>. Only when nothing follows the program name is the count the default
  \<open>1024^3 / 4 = 268435456\<close>, the number of floats in one gigabyte, with the notice
  printed and a dataset of that many elements, each \<open>1.0\<close>.
\<close>

theorem default_element_count:
  "(length argv \<le> 1 \<longrightarrow>
      unat (elements argv) = 1024 ^ 3 div 4 \<and> unat (elements argv) = 268435456 \<and>
      fst (parse_elements argv) = [default_notice] \<and>
      (268435456 \<le> max_alloc E \<longrightarrow>
         (\<exists>r. main E argv = Inr r \<and> built r = replicate 268435456 (Finite 1)))) \<and>
   (n < 2 ^ 63 \<and> n \<le> max_alloc E \<longrightarrow>
      unat (elements (prog # decimal n # rest)) = n \<and>
      (\<exists>r. main E (prog # decimal n # rest) = Inr r \<and> built r = replicate n (Finite 1))) \<and>
   (1 < length argv' \<longrightarrow>
      elements argv' = word_of_int (atol (argv' ! 1)) \<and>
      fst (parse_elements argv') = [] \<and>
      (unat (elements argv') \<le> max_alloc E \<longrightarrow>
         (\<exists>r. main E argv' = Inr r \<and>
              built r = replicate (unat (elements argv')) (Finite 1))))"
proof -
  have f: "elements argv' = word_of_int (atol (argv' ! 1))" if "1 < length argv'"
    using that by (rule elements_arg)
  have g: "fst (parse_elements argv') = []" if "1 < length argv'"
    using that by (simp add: parse_elements_def)
  have h: "\<exists>r. main E argv' = Inr r \<and> built r = replicate (unat (elements argv')) (Finite 1)"
    if "unat (elements argv') \<le> max_alloc E"
    using that by (rule main_built)
  have a: "unat (elements argv) = 268435456" if "length argv \<le> 1"
    using that by (simp add: elements_default)
  have b: "\<exists>r. main E argv = Inr r \<and> built r = replicate 268435456 (Finite 1)"
    if "length argv \<le> 1" "268435456 \<le> max_alloc E"
    using main_built [of argv E] that by (simp add: a)
  have c: "fst (parse_elements argv) = [default_notice]" if "length argv \<le> 1"
    using that by (simp add: parse_elements_def)
  have d: "unat (elements (prog # decimal n # rest)) = n" if "n < 2 ^ 63"
  proof -
    have "elements (prog # decimal n # rest) = word_of_int (int n)"
      using that by (simp add: elements_arg atol_decimal)
    moreover have "n < 2 ^ 64"
      by (rule less_trans [OF that]) simp
    ultimately show ?thesis
      by (simp add: unat_of_nat take_bit_nat_eq_self)
  qed
  have e: "\<exists>r. main E (prog # decimal n # rest) = Inr r \<and> built r = replicate n (Finite 1)"
    if "n < 2 ^ 63" "n \<le> max_alloc E"
    using main_built [of "prog # decimal n # rest" E] that by (simp add: d)
  have "(1024::nat) ^ 3 div 4 = 268435456" by simp
  with a b c d e f g h show ?thesis by (simp only:) blast
qed

text \<open>No argument, the argument \<open>1024\<close>, and the argument \<open>4\<close>.\<close>

theorem default_element_count_witness:
  "unat (elements [''reduce_bench'']) = 268435456 \<and>
   built (projr (main (example_env [] 0) [''reduce_bench''])) = replicate 268435456 (Finite 1) \<and>
   built (projr (main (example_env [] 0) [''reduce_bench'', ''1024''])) = replicate 1024 (Finite 1) \<and>
   elements [''reduce_bench'', ''4''] = 4 \<and>
   built (projr (main (example_env [] 0) [''reduce_bench'', ''4''])) = replicate 4 (Finite 1)"
proof -
  note t = default_element_count [where argv = "[''reduce_bench'']" and E = "example_env [] 0"
      and n = 1024 and prog = "''reduce_bench''" and rest = "[]"
      and argv' = "[''reduce_bench'', ''4'']"]
  have l': "1 < length [''reduce_bench'', ''4'']" by simp
  have a4: "atol ([''reduce_bench'', ''4''] ! 1) = 4"
    by (simp add: atol_def is_space_def is_digit_def digits_value_def digit_value_def clamp_long_def)
  from t l' have e4: "elements [''reduce_bench'', ''4''] = 4"
    unfolding a4 by simp
  then have "unat (elements [''reduce_bench'', ''4'']) \<le> max_alloc (example_env [] 0)"
    by (simp add: example_env_simps)
  with t l'
  have "\<exists>r. main (example_env [] 0) [''reduce_bench'', ''4''] = Inr r \<and>
     built r = replicate (unat (elements [''reduce_bench'', ''4''])) (Finite 1)"
    by blast
  then have b4: "built (projr (main (example_env [] 0) [''reduce_bench'', ''4''])) = replicate 4 (Finite 1)"
    unfolding e4 by auto
  have l: "length [''reduce_bench''] \<le> 1" by simp
  have m: "268435456 \<le> max_alloc (example_env [] 0)" by (simp add: example_env_simps)
  have n: "(1024::nat) < 2 ^ 63 \<and> 1024 \<le> max_alloc (example_env [] 0)"
    by (simp add: example_env_simps)
  have d: "decimal 1024 = ''1024''" by (simp add: decimal.simps)
  from t l have "unat (elements [''reduce_bench'']) = 268435456" by blast
  moreover from t l m
  have "\<exists>r. main (example_env [] 0) [''reduce_bench''] = Inr r \<and> built r = replicate 268435456 (Finite 1)"
    by blast
  then have "built (projr (main (example_env [] 0) [''reduce_bench''])) = replicate 268435456 (Finite 1)"
    by auto
  moreover from t n
  have "\<exists>r. main (example_env [] 0) (''reduce_bench'' # decimal 1024 # []) = Inr r \<and>
     built r = replicate 1024 (Finite 1)"
    by blast
  then have "built (projr (main (example_env [] 0) [''reduce_bench'', ''1024''])) = replicate 1024 (Finite 1)"
    unfolding d by auto
  ultimately show ?thesis using e4 b4 by blast
qed

text \<open>
  The count left out and a flag of the benchmark framework in its place: \<open>atol\<close> reads no
  digits, so no element is requested, no notice is printed, and the dataset is empty.
\<close>

theorem flag_in_place_of_count:
  "elements [''reduce_bench'', ''--benchmark_filter=cpu''] = 0 \<and>
   elements [''reduce_bench'', ''--benchmark_filter=cpu''] \<noteq> 268435456 \<and>
   fst (parse_elements [''reduce_bench'', ''--benchmark_filter=cpu'']) = [] \<and>
   main (example_env [] 0) [''reduce_bench'', ''--benchmark_filter=cpu''] =
     Inr (projr (main (example_env [] 0) [''reduce_bench'', ''--benchmark_filter=cpu''])) \<and>
   built (projr (main (example_env [] 0) [''reduce_bench'', ''--benchmark_filter=cpu''])) = []"
proof -
  have a: "atol ''--benchmark_filter=cpu'' = 0"
    by (simp add: atol_def is_space_def is_digit_def digits_value_def digit_value_def clamp_long_def)
  have e: "elements [''reduce_bench'', ''--benchmark_filter=cpu''] = 0"
    by (simp add: elements_arg a)
  have p: "fst (parse_elements [''reduce_bench'', ''--benchmark_filter=cpu'']) = []"
    by (simp add: parse_elements_def)
  have "\<exists>r. main (example_env [] 0) [''reduce_bench'', ''--benchmark_filter=cpu''] = Inr r \<and>
     built r = replicate (unat (elements [''reduce_bench'', ''--benchmark_filter=cpu''])) (Finite 1)"
    by (rule main_built) (simp add: e)
  then obtain r where r: "main (example_env [] 0) [''reduce_bench'', ''--benchmark_filter=cpu''] = Inr r"
    "built r = []"
    by (auto simp: e)
  from r e p show ?thesis by simp
qed

subsection \<open>What a dynamically generated case holds\<close>

lemma loop_body_entries:
  "map (entry_benchmark L') (snd (loop_body Copies_text (L, reg))) =
     map (entry_benchmark L') reg @
       [opencl_case (tgt_var L) (kernel_name_var L) (group_size_var L)]"
  by (simp add: loop_body_def register_lambda_def capture_by_copy_def entry_benchmark_def
      opencl_case_def Let_def)

lemma loop_body_locals:
  "fst (loop_body P (L, reg)) =
     L\<lparr>name_var := opencl_case_name (kernel_name_var L) (group_size_var L) (device_name (tgt_var L))\<rparr>"
  by (simp add: loop_body_def Let_def)

lemma loop_group_sizes_keeps:
  "tgt_var (fst (loop_group_sizes P gs (L, reg))) = tgt_var L \<and>
   kernel_name_var (fst (loop_group_sizes P gs (L, reg))) = kernel_name_var L"
  unfolding loop_group_sizes_def
  by (induction gs arbitrary: L reg) (simp_all add: loop_body_def Let_def)

lemma loop_group_sizes_entries:
  "map (entry_benchmark L') (snd (loop_group_sizes Copies_text gs (L, reg))) =
     map (entry_benchmark L') reg @ map (opencl_case (tgt_var L) (kernel_name_var L)) gs"
  unfolding loop_group_sizes_def
proof (induction gs arbitrary: L reg)
  case Nil
  then show ?case by simp
next
  case (Cons g gs)
  obtain L1 reg1 where b: "loop_body Copies_text (L\<lparr>group_size_var := g\<rparr>, reg) = (L1, reg1)"
    by (cases "loop_body Copies_text (L\<lparr>group_size_var := g\<rparr>, reg)")
  have l: "tgt_var L1 = tgt_var L" "kernel_name_var L1 = kernel_name_var L"
    using loop_body_locals [of Copies_text "L\<lparr>group_size_var := g\<rparr>" reg] b by simp_all
  have e: "map (entry_benchmark L') reg1 =
     map (entry_benchmark L') reg @ [opencl_case (tgt_var L) (kernel_name_var L) g]"
    using loop_body_entries [of L' "L\<lparr>group_size_var := g\<rparr>" reg] b by simp
  show ?case
    using Cons.IH [of L1 reg1] by (simp add: b l e)
qed

lemma loop_kernels_keeps:
  "tgt_var (fst (loop_kernels P ks gs (L, reg))) = tgt_var L"
  unfolding loop_kernels_def
proof (induction ks arbitrary: L reg)
  case Nil
  then show ?case by simp
next
  case (Cons k ks)
  obtain L1 reg1 where b:
    "loop_group_sizes P gs (L\<lparr>kernel_name_var := k\<rparr>, reg) = (L1, reg1)"
    by (cases "loop_group_sizes P gs (L\<lparr>kernel_name_var := k\<rparr>, reg)")
  have "tgt_var L1 = tgt_var L"
    using loop_group_sizes_keeps [of P gs "L\<lparr>kernel_name_var := k\<rparr>" reg] b by simp
  then show ?case
    using Cons.IH [of L1 reg1] by (simp add: b)
qed

lemma loop_kernels_entries:
  "map (entry_benchmark L') (snd (loop_kernels Copies_text ks gs (L, reg))) =
     map (entry_benchmark L') reg @ concat (map (\<lambda>k. map (opencl_case (tgt_var L) k) gs) ks)"
  unfolding loop_kernels_def
proof (induction ks arbitrary: L reg)
  case Nil
  then show ?case by simp
next
  case (Cons k ks)
  obtain L1 reg1 where b:
    "loop_group_sizes Copies_text gs (L\<lparr>kernel_name_var := k\<rparr>, reg) = (L1, reg1)"
    by (cases "loop_group_sizes Copies_text gs (L\<lparr>kernel_name_var := k\<rparr>, reg)")
  have l: "tgt_var L1 = tgt_var L"
    using loop_group_sizes_keeps [of Copies_text gs "L\<lparr>kernel_name_var := k\<rparr>" reg] b by simp
  have e: "map (entry_benchmark L') reg1 =
     map (entry_benchmark L') reg @ map (opencl_case (tgt_var L) k) gs"
    using loop_group_sizes_entries [of L' gs "L\<lparr>kernel_name_var := k\<rparr>" reg] b by simp
  show ?case
    using Cons.IH [of L1 reg1] by (simp add: b l e)
qed

lemma opencl_loops_entries:
  "map (entry_benchmark L') (snd (opencl_loops Copies_text ts ks gs (L, reg))) =
     map (entry_benchmark L') reg @
       concat (map (\<lambda>t. concat (map (\<lambda>k. map (opencl_case t k) gs) ks)) ts)"
  unfolding opencl_loops_def
proof (induction ts arbitrary: L reg)
  case Nil
  then show ?case by simp
next
  case (Cons t ts)
  obtain L1 reg1 where b: "loop_kernels Copies_text ks gs (L\<lparr>tgt_var := t\<rparr>, reg) = (L1, reg1)"
    by (cases "loop_kernels Copies_text ks gs (L\<lparr>tgt_var := t\<rparr>, reg)")
  have e: "map (entry_benchmark L') reg1 =
     map (entry_benchmark L') reg @ concat (map (\<lambda>k. map (opencl_case t k) gs) ks)"
    using loop_kernels_entries [of L' ks gs "L\<lparr>tgt_var := t\<rparr>" reg] b by simp
  show ?case
    using Cons.IH [of L1 reg1] by (simp add: b e)
qed

lemma opencl_loops_refine:
  "map (entry_benchmark L') (snd (opencl_loops Copies_text ts ks gs (L, []))) =
     register_opencl ts ks gs []"
  by (simp add: opencl_loops_entries register_opencl_append)

text \<open>
  C8 (amended). The OpenCL loops share no mutable naming state between the cases they
  generate. While the loops run, the locals \<open>tgt\<close>, \<open>kernel_name\<close>, \<open>group_size\<close> and
  \<open>name\<close> are assigned again and again; each lambda holds copies of the first three,
  made when it was created, and the framework holds a copy of the text of \<open>name\<close>, made
  when the case was registered. So whatever the locals hold when the cases are run, the
  cases are those of \<open>register_opencl\<close>: one per target, kernel name and size, in the order
  of the loops, each with the name formatted from its own three values and a lambda that
  builds the accumulator from its own three values and the dataset. Registration only
  appends, so an entry, once added, is never changed.
\<close>

theorem opencl_cases_hold_own_copies:
  "map (entry_benchmark L') (snd (opencl_loops Copies_text ts ks gs (L, []))) =
     register_opencl ts ks gs [] \<and>
   map (entry_benchmark (fst (opencl_loops Copies_text ts ks gs (L, []))))
       (snd (opencl_loops Copies_text ts ks gs (L, []))) =
     map (\<lambda>(t, k, g). opencl_case t k g) (List.product ts (List.product ks gs)) \<and>
   register_opencl ts ks gs reg =
     reg @ map (\<lambda>(t, k, g). opencl_case t k g) (List.product ts (List.product ks gs)) \<and>
   register_opencl (ts @ ts') ks gs reg = register_opencl ts' ks gs (register_opencl ts ks gs reg) \<and>
   bench_name (opencl_case t k g) = opencl_case_name k g (device_name t) \<and>
   bench_fn (opencl_case t k g) = opencl_lambda t g k \<and>
   run_benchmark A B ds (bench_fn (opencl_case t k g)) st =
     generic A ds st (invoke_acc B, construct B (opencl_lambda t g k) ds)"
proof -
  have "register_opencl (ts @ ts') ks gs reg = register_opencl ts' ks gs (register_opencl ts ks gs reg)"
    by (simp add: register_opencl_def)
  moreover have "map (entry_benchmark (fst (opencl_loops Copies_text ts ks gs (L, []))))
       (snd (opencl_loops Copies_text ts ks gs (L, []))) =
     map (\<lambda>(t, k, g). opencl_case t k g) (List.product ts (List.product ks gs))"
    by (simp only: opencl_loops_refine) (simp add: register_opencl_product)
  ultimately show ?thesis
    by (simp add: opencl_loops_refine register_opencl_product [of ts ks gs reg] opencl_case_def
        run_benchmark_generic)
qed

text \<open>
  Two targets, A then B. When the loops are over the locals hold B and the name
  formatted for B, and the first case still has the name and the target it was
  registered with.
\<close>

theorem opencl_cases_not_shared:
  "tgt_var (fst (opencl_loops Copies_text [gpu ''A'' ''535.1'', gpu ''B'' ''535.1'']
       [''reduce_simple''] [8] (unassigned, []))) = gpu ''B'' ''535.1'' \<and>
   name_var (fst (opencl_loops Copies_text [gpu ''A'' ''535.1'', gpu ''B'' ''535.1'']
       [''reduce_simple''] [8] (unassigned, []))) = ''opencl-reduce_simple split by 8 on B'' \<and>
   map (entry_benchmark (fst (opencl_loops Copies_text [gpu ''A'' ''535.1'', gpu ''B'' ''535.1'']
       [''reduce_simple''] [8] (unassigned, []))))
     (snd (opencl_loops Copies_text [gpu ''A'' ''535.1'', gpu ''B'' ''535.1'']
       [''reduce_simple''] [8] (unassigned, []))) =
     [\<lparr>bench_name = ''opencl-reduce_simple split by 8 on A'',
       bench_fn = opencl_lambda (gpu ''A'' ''535.1'') 8 ''reduce_simple'',
       bench_min_time = 10, bench_use_real_time = True\<rparr>,
      \<lparr>bench_name = ''opencl-reduce_simple split by 8 on B'',
       bench_fn = opencl_lambda (gpu ''B'' ''535.1'') 8 ''reduce_simple'',
       bench_min_time = 10, bench_use_real_time = True\<rparr>]"
  by (simp add: opencl_loops_def loop_kernels_def loop_group_sizes_def loop_body_def
      register_lambda_def capture_by_copy_def entry_benchmark_def opencl_case_name_def
      gpu_def decimal.simps Let_def)

text \<open>
  Had the lambda captured by reference, or had the framework kept the pointer, a case
  would be read off the locals: after the same loops every case would show B.
\<close>

lemma shared_state_would_show:
  "entry_benchmark (fst (opencl_loops Copies_text [gpu ''A'' ''535.1'', gpu ''B'' ''535.1'']
       [''reduce_simple''] [8] (unassigned, [])))
     \<lparr>entry_name = Pointer_to_name, entry_fn = capture_by_reference\<rparr> =
   opencl_case (gpu ''B'' ''535.1'') ''reduce_simple'' 8"
  by (simp add: opencl_loops_def loop_kernels_def loop_group_sizes_def loop_body_def
      register_lambda_def capture_by_copy_def capture_by_reference_def entry_benchmark_def
      opencl_case_def opencl_case_name_def gpu_def decimal.simps Let_def)

lemma kept_pointer_names_collapse:
  "map (bench_name \<circ> entry_benchmark (fst (opencl_loops Keeps_pointer
         [gpu ''A'' ''535.1'', gpu ''B'' ''535.1''] [''reduce_simple''] [8] (unassigned, []))))
     (snd (opencl_loops Keeps_pointer [gpu ''A'' ''535.1'', gpu ''B'' ''535.1'']
       [''reduce_simple''] [8] (unassigned, []))) =
   [''opencl-reduce_simple split by 8 on B'', ''opencl-reduce_simple split by 8 on B'']"
  by (simp add: opencl_loops_def loop_kernels_def loop_group_sizes_def loop_body_def
      register_lambda_def capture_by_copy_def entry_benchmark_def opencl_case_name_def
      gpu_def decimal.simps Let_def)

end
